theory Spec2Isabelle
  imports Main "HOL-Library.AList"
begin

section \<open>Data model\<close>

text \<open>
  The repository holds two implementations of the Pulse listener: the older
  \<^verbatim>\<open>lib/pulselistener.js\<close> (with the reconnecting \<^verbatim>\<open>PulseConnection\<close>) and the
  rewrite \<^verbatim>\<open>src/pulselistener.js\<close>; the client (\<^verbatim>\<open>src/client.js\<close>) builds the
  bindings both consume. Definitions taken from the older file end in \<open>_lib\<close>, those
  of the rewrite in \<open>_src\<close>; code that is the same in both is embedded once.
\<close>

text \<open>Exceptions that the embedded code can raise.\<close>

datatype error = AssertionError | SyntaxError | TypeError | BrokerError | PlainError

text \<open>One entry of \<^verbatim>\<open>entry.routingKey\<close> (a routing-key reference).\<close>

record FieldSpec =
  name :: string
  multipleWords :: bool
  constant' :: "string option"

text \<open>The object handed to \<^verbatim>\<open>PulseListener.bind\<close> and returned by \<^verbatim>\<open>Client._topic\<close>.\<close>

record Binding =
  exchange :: string
  routingKeyPattern :: string
  routingKeyReference :: "FieldSpec list option"

text \<open>A topic-exchange entry of an API reference, as far as \<^verbatim>\<open>_topic\<close> reads it.\<close>

record entry =
  entry_exchange :: string
  entry_routingKey :: "FieldSpec list"

text \<open>
  The JavaScript values \<^verbatim>\<open>_topic\<close> tells apart with \<^verbatim>\<open>typeof\<close>: numbers,
  strings, \<^verbatim>\<open>null\<close>/\<^verbatim>\<open>undefined\<close>, and everything else. Of a number
  \<^verbatim>\<open>_topic\<close> uses only what \<^verbatim>\<open>String(value)\<close> returns, so a number is given by that
  string (\<^verbatim>\<open>''1.5''\<close>, \<^verbatim>\<open>''1e+21''\<close>, \<^verbatim>\<open>''NaN''\<close>).
\<close>

datatype jsvalue = JUndefined | JNumber string | JString string | JOther

text \<open>The second argument of \<^verbatim>\<open>_topic\<close>: a string or an object of field values.\<close>

datatype pattern_arg = PatternString string | PatternObject "string \<rightharpoonup> jsvalue"

text \<open>
  What \<^verbatim>\<open>keys.shift()\<close> and \<^verbatim>\<open>keys.pop()\<close> return: a segment, or
  \<^verbatim>\<open>undefined\<close> on an empty array. The parsed routing key is an object: the
  association list of its own properties, read with \<open>map_of\<close>, in the order in which
  they were first assigned.
\<close>

datatype jsstr = Undefined | Str string

type_synonym routing = "(string \<times> jsstr) list"

section \<open>Strings and arrays of the JavaScript runtime\<close>

text \<open>\<^verbatim>\<open>Array.prototype.join(sep)\<close> on an array of strings.\<close>

fun js_join :: "string \<Rightarrow> string list \<Rightarrow> string" where
  "js_join sep [] = []"
| "js_join sep [x] = x"
| "js_join sep (x # y # ys) = x @ sep @ js_join sep (y # ys)"

text \<open>\<^verbatim>\<open>String.prototype.split(c)\<close> for a one-character separator: never empty.\<close>

fun js_split :: "char \<Rightarrow> string \<Rightarrow> string list" where
  "js_split c [] = [[]]"
| "js_split c (x # xs) =
     (if x = c then [] # js_split c xs
      else (case js_split c xs of
              [] \<Rightarrow> [[x]]
            | w # ws \<Rightarrow> (x # w) # ws))"

text \<open>\<^verbatim>\<open>keys.shift()\<close> and \<^verbatim>\<open>keys.pop()\<close>: the value and the array left.\<close>

definition shift :: "string list \<Rightarrow> jsstr \<times> string list" where
  "shift ks = (case ks of [] \<Rightarrow> (Undefined, []) | k # r \<Rightarrow> (Str k, r))"

definition pop :: "string list \<Rightarrow> jsstr \<times> string list" where
  "pop ks = (if ks = [] then (Undefined, []) else (Str (last ks), butlast ks))"

text \<open>
  An assignment \<^verbatim>\<open>routing[name] = value\<close> to an object made by \<^verbatim>\<open>{}\<close>. The name
  \<^verbatim>\<open>__proto__\<close> is the accessor of \<^verbatim>\<open>Object.prototype\<close>, whose setter ignores a
  value that is not an object (here a string or \<^verbatim>\<open>undefined\<close>): no property is
  made. Every other name makes an own property or overwrites it.
\<close>

definition setProperty :: "string \<Rightarrow> jsstr \<Rightarrow> routing \<Rightarrow> routing" where
  "setProperty n v r = (if n = ''__proto__'' then r else AList.update n v r)"

text \<open>
  A read \<^verbatim>\<open>obj[name]\<close> of an object whose prototype is \<^verbatim>\<open>Object.prototype\<close>,
  given by its own properties: a name it does not have is looked up in the
  prototype, whose properties are functions (and, for \<^verbatim>\<open>__proto__\<close>, the prototype
  itself).
\<close>

definition Object_prototype :: "string list" where
  "Object_prototype =
     [''constructor'', ''__defineGetter__'', ''__defineSetter__'', ''hasOwnProperty'',
      ''__lookupGetter__'', ''__lookupSetter__'', ''isPrototypeOf'',
      ''propertyIsEnumerable'', ''toString'', ''valueOf'', ''__proto__'',
      ''toLocaleString'']"

definition getProperty :: "(string \<rightharpoonup> jsvalue) \<Rightarrow> string \<Rightarrow> jsvalue" where
  "getProperty obj n =
     (case obj n of
        Some v \<Rightarrow> v
      | None \<Rightarrow> if n \<in> set Object_prototype then JOther else JUndefined)"

text \<open>A port number in decimal, as \<^verbatim>\<open>Array.prototype.join\<close> prints it.\<close>

definition digit_char :: "nat \<Rightarrow> char" where
  "digit_char d = char_of (48 + d)"

function string_of_nat :: "nat \<Rightarrow> string" where
  "string_of_nat n =
     (if n < 10 then [digit_char n]
      else string_of_nat (n div 10) @ [digit_char (n mod 10)])"
  by pat_completeness auto
termination
  by (relation "measure id") auto

section \<open>Client: building a routing-key pattern\<close>

text \<open>
  \<^verbatim>\<open>_topic(entry, routingKeyPattern = {})\<close> of \<^verbatim>\<open>src/client.js\<close>. The callback of
  \<^verbatim>\<open>entry.routingKey.map\<close> is \<open>topicSegment\<close>; a failed \<^verbatim>\<open>assert\<close> leaves the
  map with the exception.
\<close>

definition keyValue :: "(string \<rightharpoonup> jsvalue) \<Rightarrow> FieldSpec \<Rightarrow> jsvalue" where
  "keyValue vals key =
     (case constant' key of
        Some c \<Rightarrow> if c \<noteq> [] then JString c else getProperty vals (name key)
      | None \<Rightarrow> getProperty vals (name key))"

definition topicSegment :: "(string \<rightharpoonup> jsvalue) \<Rightarrow> FieldSpec \<Rightarrow> error + string" where
  "topicSegment vals key =
     (case keyValue vals key of
        JNumber n \<Rightarrow> Inr n
      | JString s \<Rightarrow>
          if multipleWords key \<or> CHR ''.'' \<notin> set s then Inr s else Inl AssertionError
      | JUndefined \<Rightarrow> Inr (if multipleWords key then ''#'' else ''*'')
      | JOther \<Rightarrow> Inl AssertionError)"

fun mapE :: "('a \<Rightarrow> error + 'b) \<Rightarrow> 'a list \<Rightarrow> error + 'b list" where
  "mapE f [] = Inr []"
| "mapE f (x # xs) =
     (case f x of
        Inl e \<Rightarrow> Inl e
      | Inr y \<Rightarrow> (case mapE f xs of Inl e \<Rightarrow> Inl e | Inr ys \<Rightarrow> Inr (y # ys)))"

definition topic :: "string \<Rightarrow> entry \<Rightarrow> pattern_arg \<Rightarrow> error + Binding" where
  "topic exchangePrefix e routingKeyPattern_arg =
     (case (case routingKeyPattern_arg of
              PatternString s \<Rightarrow> Inr s
            | PatternObject vals \<Rightarrow>
                (case mapE (topicSegment vals) (entry_routingKey e) of
                   Inl err \<Rightarrow> Inl err
                 | Inr segs \<Rightarrow> Inr (js_join ''.'' segs))) of
        Inl err \<Rightarrow> Inl err
      | Inr pattern \<Rightarrow>
          Inr \<lparr>exchange = exchangePrefix @ entry_exchange e,
               routingKeyPattern = pattern,
               routingKeyReference = Some (entry_routingKey e)\<rparr>)"

section \<open>Listener: parsing a routing key\<close>

text \<open>
  The block of \<^verbatim>\<open>_handle\<close> inside \<^verbatim>\<open>try\<close>, the same in both listeners. The first
  loop walks the reference from the front up to the first multi-word field:
  \<^verbatim>\<open>for (i = 0; i < ref.length; i++) { if (ref[i].multipleWords) break;
  routing[ref[i].name] = keys.shift(); }\<close>
\<close>

function frontLoop ::
  "FieldSpec list \<Rightarrow> nat \<Rightarrow> string list \<Rightarrow> routing \<Rightarrow> nat \<times> string list \<times> routing" where
  "frontLoop ref i keys r =
     (if i < length ref then
        (if multipleWords (ref ! i) then (i, keys, r)
         else frontLoop ref (i + 1) (snd (shift keys))
                (setProperty (name (ref ! i)) (fst (shift keys)) r))
      else (i, keys, r))"
  by pat_completeness auto
termination
  by (relation "measure (\<lambda>(ref, i, keys, r). length ref - i)") auto

text \<open>
  The second loop walks from the back:
  \<^verbatim>\<open>for (j = ref.length - 1; j > i; j--) { if (ref[j].multipleWords) break;
  routing[ref[j].name] = keys.pop(); }\<close>
\<close>

function backLoop ::
  "FieldSpec list \<Rightarrow> nat \<Rightarrow> nat \<Rightarrow> string list \<Rightarrow> routing \<Rightarrow> nat \<times> string list \<times> routing" where
  "backLoop ref i j keys r =
     (if j > i then
        (if multipleWords (ref ! j) then (j, keys, r)
         else backLoop ref i (j - 1) (snd (pop keys))
                (setProperty (name (ref ! j)) (fst (pop keys)) r))
      else (j, keys, r))"
  by pat_completeness auto
termination
  by (relation "measure (\<lambda>(ref, i, j, keys, r). j)") auto

text \<open>
  The whole \<^verbatim>\<open>try\<close> block: \<open>Some routing\<close> when \<^verbatim>\<open>message.routing\<close> is set,
  \<open>None\<close> when the \<^verbatim>\<open>assert(i == j)\<close> throws and the \<^verbatim>\<open>catch\<close> only logs.
\<close>

definition parseRoutingKey :: "FieldSpec list \<Rightarrow> string \<Rightarrow> routing option" where
  "parseRoutingKey ref routingKey_str =
     (case frontLoop ref 0 (js_split CHR ''.'' routingKey_str) [] of
        (i, keys1, r1) \<Rightarrow>
          if i < length ref then
            (case backLoop ref i (length ref - 1) keys1 r1 of
               (j, keys2, r2) \<Rightarrow>
                 if i = j
                 then Some (setProperty (name (ref ! i)) (Str (js_join ''.'' keys2)) r2)
                 else None)
          else Some r1)"

section \<open>PulseConnection: connecting with retries\<close>

text \<open>
  \<^verbatim>\<open>PulseConnection\<close> of \<^verbatim>\<open>lib/pulselistener.js\<close>. Of its options the retry logic
  reads \<^verbatim>\<open>reconnect\<close>, \<^verbatim>\<open>retryResetTime\<close> and \<^verbatim>\<open>retries\<close>; times are
  milliseconds as \<^verbatim>\<open>Date.now()\<close> gives them.
\<close>

record options =
  reconnect :: bool
  retryResetTime :: int
  retries :: int

text \<open>
  The private properties. A connection object is a number. \<open>connecting\<close> is
  \<^verbatim>\<open>_connecting\<close>: \<open>None\<close> for \<^verbatim>\<open>null\<close>, \<open>Some k\<close> for the promise that was
  fulfilled with connection \<open>k\<close> (a rejected promise is replaced by \<^verbatim>\<open>null\<close> at once).
\<close>

record PulseConnection =
  conn :: "nat option"
  connecting :: "nat option"
  lastReconnect :: int
  reconnectAttempts :: int

datatype 'a promise = Fulfilled 'a | Rejected error

datatype conn_event = ConnError | Reconnect

datatype verdict = Retry | Rethrow

text \<open>
  \<^verbatim>\<open>_rethrowOrRetry(err)\<close> at time \<open>now\<close>: \<open>Rethrow\<close> when it throws \<^verbatim>\<open>err\<close>.
  The counter is set to \<^verbatim>\<open>-1\<close> when the reset time has passed, then incremented.
\<close>

definition rethrowOrRetry :: "options \<Rightarrow> int \<Rightarrow> PulseConnection \<Rightarrow> verdict \<times> PulseConnection" where
  "rethrowOrRetry opts now c =
     (let timeSinceReconnect = now - lastReconnect c;
          attempts = (if timeSinceReconnect > retryResetTime opts then - 1
                      else reconnectAttempts c);
          c' = c\<lparr>lastReconnect := now, reconnectAttempts := attempts + 1\<rparr>
      in (if reconnectAttempts c' > retries opts then Rethrow else Retry, c'))"

text \<open>
  The counting as the specification words it, for comparison: the counter is reset
  to 0, and then the failure is counted.
\<close>

definition rethrowOrRetry_as_specified ::
  "options \<Rightarrow> int \<Rightarrow> PulseConnection \<Rightarrow> verdict \<times> PulseConnection" where
  "rethrowOrRetry_as_specified opts now c =
     (let timeSinceReconnect = now - lastReconnect c;
          attempts = (if timeSinceReconnect > retryResetTime opts then 0
                      else reconnectAttempts c);
          c' = c\<lparr>lastReconnect := now, reconnectAttempts := attempts + 1\<rparr>
      in (if reconnectAttempts c' > retries opts then Rethrow else Retry, c'))"

text \<open>
  What the world answers to one dial: how long the timer before it ran (the code asks
  for \<^verbatim>\<open>min(2^attempts * delayFactor * jitter, maxDelay)\<close> with a random jitter; only
  the elapsed time matters here), how long \<^verbatim>\<open>amqplib.connect\<close> took, and the
  connection it gave, if any.
\<close>

record dial =
  slept :: int
  took :: int
  answer :: "nat option"

text \<open>What a call has done when it returns: its result, the clock, the object, the
  number of dials made and the events emitted.\<close>

record connected =
  result :: "nat promise"
  clock :: int
  connection :: PulseConnection
  dials :: nat
  events :: "conn_event list"

text \<open>
  The inner function \<^verbatim>\<open>connect\<close> of \<^verbatim>\<open>PulseConnection.prototype.connect\<close>: sleep
  when this is a retry, note the time, dial; on failure \<^verbatim>\<open>_rethrowOrRetry\<close> and
  call itself. The loop reads one answer per dial and has no bound of its own:
  \<open>None\<close> when the answers run out before it ends.
\<close>

fun connectLoop ::
  "options \<Rightarrow> dial list \<Rightarrow> int \<Rightarrow> PulseConnection \<Rightarrow> nat \<Rightarrow> connected option" where
  "connectLoop opts [] now c n = None"
| "connectLoop opts (d # ds) now c n =
     (let now1 = (if reconnectAttempts c > 0 then now + slept d else now);
          c1 = c\<lparr>lastReconnect := now1\<rparr>;
          now2 = now1 + took d
      in case answer d of
           Some k \<Rightarrow>
             Some \<lparr>result = Fulfilled k, clock = now2, connection = c1\<lparr>conn := Some k\<rparr>,
                   dials = n + 1, events = []\<rparr>
         | None \<Rightarrow>
             (case rethrowOrRetry opts now2 c1 of
                (Rethrow, c2) \<Rightarrow>
                  Some \<lparr>result = Rejected BrokerError, clock = now2, connection = c2,
                        dials = n + 1, events = []\<rparr>
              | (Retry, c2) \<Rightarrow> connectLoop opts ds now2 c2 (n + 1)))"

text \<open>\<^verbatim>\<open>PulseConnection.prototype.connect\<close>.\<close>

definition connect :: "options \<Rightarrow> dial list \<Rightarrow> int \<Rightarrow> PulseConnection \<Rightarrow> connected option" where
  "connect opts ds now c =
     (case connecting c of
        Some k \<Rightarrow>
          Some \<lparr>result = Fulfilled k, clock = now, connection = c, dials = 0, events = []\<rparr>
      | None \<Rightarrow>
          (case connectLoop opts ds now c 0 of
             None \<Rightarrow> None
           | Some r \<Rightarrow>
               (case result r of
                  Fulfilled k \<Rightarrow>
                    Some (r\<lparr>connection := (connection r)\<lparr>connecting := Some k\<rparr>\<rparr>)
                | Rejected err \<Rightarrow>
                    Some (r\<lparr>connection := (connection r)\<lparr>connecting := None\<rparr>,
                            events := [ConnError]\<rparr>))))"

text \<open>
  \<^verbatim>\<open>_onError(err)\<close>, the handler of the connection's \<^verbatim>\<open>error\<close> event:
  \<^verbatim>\<open>reconnect\<close> is emitted with the promise of the new \<^verbatim>\<open>connect()\<close>.
\<close>

definition onError :: "options \<Rightarrow> dial list \<Rightarrow> int \<Rightarrow> PulseConnection \<Rightarrow> connected option" where
  "onError opts ds now c =
     (let c1 = c\<lparr>conn := None, connecting := None\<rparr>
      in if \<not> reconnect opts then
           Some \<lparr>result = Rejected BrokerError, clock = now, connection = c1,
                 dials = 0, events = [ConnError]\<rparr>
         else
           (case rethrowOrRetry opts now c1 of
              (Rethrow, c2) \<Rightarrow>
                Some \<lparr>result = Rejected BrokerError, clock = now, connection = c2,
                      dials = 0, events = [ConnError]\<rparr>
            | (Retry, c2) \<Rightarrow>
                (case connect opts ds now c2 of
                   None \<Rightarrow> None
                 | Some r \<Rightarrow> Some (r\<lparr>events := Reconnect # events r\<rparr>))))"

text \<open>A connection as the constructor leaves it, at time \<open>now\<close>.\<close>

definition newPulseConnection :: "int \<Rightarrow> PulseConnection" where
  "newPulseConnection now =
     \<lparr>conn = None, connecting = None, lastReconnect = now, reconnectAttempts = 0\<rparr>"

section \<open>Credentials: connection string and namespace\<close>

text \<open>
  The options of \<^verbatim>\<open>PulseConnection\<close> that name the broker. An absent option is
  \<open>None\<close>; a present but empty string is falsy, as in JavaScript.
\<close>

record credentials =
  namespace :: "string option"
  username :: "string option"
  password :: "string option"
  hostname :: "string option"
  protocol :: "string option"
  port :: "nat option"
  connectionString :: "string option"

definition truthy :: "string option \<Rightarrow> bool" where
  "truthy s = (case s of None \<Rightarrow> False | Some [] \<Rightarrow> False | Some (x # xs) \<Rightarrow> True)"

definition orElse :: "string option \<Rightarrow> string \<Rightarrow> string" where
  "orElse s d = (case s of None \<Rightarrow> d | Some [] \<Rightarrow> d | Some (x # xs) \<Rightarrow> x # xs)"

text \<open>
  The constructor of \<^verbatim>\<open>lib/pulselistener.js\<close> up to \<^verbatim>\<open>this.namespace\<close>. It gives
  the connection string and the namespace. \<open>URL_auth\<close> stands for
  \<^verbatim>\<open>URL.parse(s).auth\<close> of the node library, \<open>None\<close> when it is \<^verbatim>\<open>null\<close>.
\<close>

definition authUser :: "string option \<Rightarrow> error + string" where
  "authUser auth =
     (case auth of None \<Rightarrow> Inl TypeError | Some a \<Rightarrow> Inr (hd (js_split CHR '':'' a)))"

definition PulseConnection_lib ::
  "(string \<Rightarrow> string option) \<Rightarrow> credentials \<Rightarrow> error + (string \<times> string)" where
  "PulseConnection_lib URL_auth opts =
     (if truthy (connectionString opts) \<and>
         (truthy (hostname opts) \<or> truthy (protocol opts) \<or>
          (case port opts of None \<Rightarrow> False | Some n \<Rightarrow> n \<noteq> 0) \<or>
          truthy (username opts) \<or> truthy (password opts))
      then Inl AssertionError
      else
        let namespace0 = (case namespace opts of None \<Rightarrow> orElse (username opts) [] | Some n \<Rightarrow> n);
            hostname0 = (case hostname opts of None \<Rightarrow> ''pulse.mozilla.org'' | Some h \<Rightarrow> h);
            protocol0 = (case protocol opts of None \<Rightarrow> ''amqps'' | Some p \<Rightarrow> p);
            port0 = (case port opts of
                       None \<Rightarrow> if protocol opts = Some ''amqp'' then 5672 else 5671
                     | Some n \<Rightarrow> n)
        in case (if truthy (connectionString opts) then Inr (the (connectionString opts))
                 else if \<not> truthy (username opts) \<or> \<not> truthy (password opts)
                 then Inl AssertionError
                 else Inr (protocol0 @ ''://'' @ the (username opts) @ '':'' @
                           the (password opts) @ ''@'' @ hostname0 @ '':'' @
                           string_of_nat port0)) of
             Inl err \<Rightarrow> Inl err
           | Inr cs \<Rightarrow>
               if namespace0 = [] then
                 (case authUser (URL_auth cs) of
                    Inl err \<Rightarrow> Inl err
                  | Inr user \<Rightarrow> Inr (cs, user))
               else Inr (cs, namespace0))"

text \<open>The constructor of \<^verbatim>\<open>src/pulseconnection.js\<close>, likewise.\<close>

definition PulseConnection_src ::
  "(string \<Rightarrow> string option) \<Rightarrow> credentials \<Rightarrow> error + (string \<times> string)" where
  "PulseConnection_src URL_auth opts =
     (if truthy (connectionString opts) \<and>
         (truthy (username opts) \<or> truthy (password opts) \<or> truthy (hostname opts))
      then Inl AssertionError
      else
        case (if truthy (connectionString opts) then Inr (the (connectionString opts))
              else if \<not> truthy (username opts) \<or> \<not> truthy (password opts)
              then Inl AssertionError
              else Inr (''amqps://'' @ the (username opts) @ '':'' @ the (password opts) @
                        ''@'' @
                        (case hostname opts of None \<Rightarrow> ''pulse.mozilla.org'' | Some h \<Rightarrow> h) @
                        '':5671'')) of
          Inl err \<Rightarrow> Inl err
        | Inr cs \<Rightarrow>
            if truthy (username opts) then Inr (cs, the (username opts))
            else (case authUser (URL_auth cs) of
                    Inl err \<Rightarrow> Inl err
                  | Inr user \<Rightarrow> Inr (cs, user)))"

section \<open>The listeners\<close>

text \<open>Calls on the AMQP channel and connection, in the order they are made.\<close>

datatype broker_op =
    CreateConfirmChannel
  | Prefetch nat
  | AssertQueue string bool bool bool "nat option"
  | BindQueue string string string
  | Consume string
  | Cancel "string option"
  | Ack
  | Nack bool
  | DeleteQueue string
  | CloseChannel
  | CloseConnection

datatype listener_event = ErrorEvent

text \<open>
  The options of a listener: \<open>shared\<close> says that \<^verbatim>\<open>options.connection\<close> is a
  \<^verbatim>\<open>PulseConnection\<close> of the caller's; \<open>reconnect_opt\<close> is \<^verbatim>\<open>options.reconnect\<close>
  when given.
\<close>

record listener_options =
  prefetch :: nat
  queueName_opt :: "string option"
  maxLength :: "nat option"
  reconnect_opt :: "bool option"
  shared :: bool

text \<open>
  The state of a listener of \<^verbatim>\<open>lib/pulselistener.js\<close>. A channel object is a number;
  \<open>invalidated\<close> lists the channels whose \<^verbatim>\<open>__invalidated\<close> is true.
\<close>

record Listener_lib =
  bindings :: "Binding list"
  queueName :: string
  channel :: "nat option"
  consumerTag :: "string option"
  exclusive :: bool
  invalidated :: "nat list"
  reconnects :: bool
  opts_lib :: listener_options

text \<open>
  The constructor once \<^verbatim>\<open>this._connection\<close> is there: \<open>ns\<close> is
  \<^verbatim>\<open>this._connection.namespace\<close> and \<open>slug\<close> what \<^verbatim>\<open>slugid.v4()\<close> returns when it is
  called.
\<close>

definition PulseListener_lib :: "string \<Rightarrow> string \<Rightarrow> listener_options \<Rightarrow> Listener_lib" where
  "PulseListener_lib ns slug options =
     \<lparr>bindings = [],
      queueName = js_join ''/'' [''queue'', ns,
                    if truthy (queueName_opt options) then the (queueName_opt options)
                    else ''exclusive/'' @ slug],
      channel = None,
      consumerTag = None,
      exclusive = (\<not> truthy (queueName_opt options)),
      invalidated = [],
      reconnects = (case reconnect_opt options of
                      None \<Rightarrow> truthy (queueName_opt options)
                    | Some b \<Rightarrow> b),
      opts_lib = options\<rparr>"

text \<open>
  The constructor from its first line. \<open>connection_arg\<close> is \<open>Some ns\<close> when
  \<^verbatim>\<open>options.connection\<close> is an instance of \<^verbatim>\<open>PulseConnection\<close>, whose namespace is
  \<open>ns\<close>; otherwise the listener makes its own connection from
  \<^verbatim>\<open>options.credentials\<close> (\<open>credentials_arg\<close>), and what that constructor throws
  leaves this one.
\<close>

definition new_PulseListener_lib ::
  "(string \<Rightarrow> string option) \<Rightarrow> string \<Rightarrow> string option \<Rightarrow> credentials option \<Rightarrow>
   listener_options \<Rightarrow> error + Listener_lib" where
  "new_PulseListener_lib URL_auth slug connection_arg credentials_arg options =
     (case connection_arg of
        Some ns \<Rightarrow> Inr (PulseListener_lib ns slug (options\<lparr>shared := True\<rparr>))
      | None \<Rightarrow>
          (case credentials_arg of
             None \<Rightarrow> Inl AssertionError
           | Some creds \<Rightarrow>
               (case PulseConnection_lib URL_auth creds of
                  Inl err \<Rightarrow> Inl err
                | Inr (cs, ns) \<Rightarrow>
                    Inr (PulseListener_lib ns slug (options\<lparr>shared := False\<rparr>)))))"

text \<open>
  \<^verbatim>\<open>bind(binding)\<close>; both \<^verbatim>\<open>assert\<close>s hold of every \<open>Binding\<close>, whose exchange and
  pattern are strings. \<open>ok\<close> is whether the broker accepts the \<^verbatim>\<open>bindQueue\<close>.
\<close>

definition bind_lib ::
  "bool \<Rightarrow> Binding \<Rightarrow> Listener_lib \<Rightarrow> unit promise \<times> Listener_lib \<times> broker_op list" where
  "bind_lib ok binding l =
     (let l1 = l\<lparr>bindings := bindings l @ [binding]\<rparr>
      in case channel l1 of
           Some ch \<Rightarrow>
             (if ok then Fulfilled () else Rejected BrokerError, l1,
              [BindQueue (queueName l1) (exchange binding) (routingKeyPattern binding)])
         | None \<Rightarrow> (Fulfilled (), l1, []))"

text \<open>What the connection and the broker answer during one \<^verbatim>\<open>connect()\<close>; the
  \<^verbatim>\<open>bindQueue\<close> calls are answered by the position of the binding.\<close>

record connect_replies =
  connection_ok :: bool
  channel_given :: "nat option"
  prefetch_ok :: bool
  assertQueue_ok :: bool
  bindQueue_ok :: "nat \<Rightarrow> bool"

definition bindAll :: "string \<Rightarrow> Binding list \<Rightarrow> broker_op list" where
  "bindAll q bs = map (\<lambda>b. BindQueue q (exchange b) (routingKeyPattern b)) bs"

definition connect_lib ::
  "connect_replies \<Rightarrow> Listener_lib \<Rightarrow> nat promise \<times> Listener_lib \<times> broker_op list" where
  "connect_lib rep l =
     (case channel l of
        Some ch \<Rightarrow> (Fulfilled ch, l, [])
      | None \<Rightarrow>
          if \<not> connection_ok rep then (Rejected BrokerError, l, [])
          else
            (case channel_given rep of
               None \<Rightarrow> (Rejected BrokerError, l, [CreateConfirmChannel])
             | Some ch \<Rightarrow>
                 let ops1 = [CreateConfirmChannel, Prefetch (prefetch (opts_lib l))];
                     ops2 = ops1 @ [AssertQueue (queueName l) (exclusive l) (\<not> exclusive l)
                                      (exclusive l)
                                      (case maxLength (opts_lib l) of
                                         None \<Rightarrow> None
                                       | Some n \<Rightarrow> if n = 0 then None else Some n)];
                     ops3 = ops2 @ bindAll (queueName l) (bindings l)
                 in if \<not> prefetch_ok rep then (Rejected BrokerError, l, ops1)
                    else if \<not> assertQueue_ok rep then (Rejected BrokerError, l, ops2)
                    else if list_all (bindQueue_ok rep) [0 ..< length (bindings l)]
                    then (Fulfilled ch,
                          l\<lparr>channel := Some ch, invalidated := removeAll ch (invalidated l)\<rparr>,
                          ops3)
                    else (Rejected BrokerError, l\<lparr>channel := Some ch\<rparr>, ops3)))"

text \<open>\<^verbatim>\<open>resume()\<close>; \<open>tag\<close> is the consumer tag the broker gives, if it accepts.\<close>

definition resume_lib ::
  "connect_replies \<Rightarrow> string option \<Rightarrow> Listener_lib \<Rightarrow>
   unit promise \<times> Listener_lib \<times> broker_op list" where
  "resume_lib rep tag l =
     (case connect_lib rep l of
        (Rejected err, l1, ops1) \<Rightarrow> (Rejected err, l1, ops1)
      | (Fulfilled ch, l1, ops1) \<Rightarrow>
          (case tag of
             None \<Rightarrow> (Rejected BrokerError, l1, ops1 @ [Consume (queueName l1)])
           | Some t \<Rightarrow>
               (Fulfilled (), l1\<lparr>consumerTag := Some t\<rparr>, ops1 @ [Consume (queueName l1)])))"

text \<open>\<^verbatim>\<open>pause()\<close>: only a warning when not connected or not consuming.\<close>

definition pause_lib :: "Listener_lib \<Rightarrow> Listener_lib \<times> broker_op list" where
  "pause_lib l =
     (if channel l = None then (l, [])
      else if \<not> truthy (consumerTag l) then (l, [])
      else (l\<lparr>consumerTag := None\<rparr>, [Cancel (consumerTag l)]))"

text \<open>\<^verbatim>\<open>close()\<close>.\<close>

definition close_lib :: "Listener_lib \<Rightarrow> Listener_lib \<times> broker_op list" where
  "close_lib l =
     (if shared (opts_lib l) then
        (case channel l of
           Some ch \<Rightarrow> (l\<lparr>channel := None, consumerTag := None\<rparr>, [CloseChannel])
         | None \<Rightarrow> (l, []))
      else (l\<lparr>channel := None, consumerTag := None\<rparr>, [CloseConnection]))"

text \<open>\<^verbatim>\<open>deleteQueue()\<close>; \<open>ok\<close> is whether the broker deletes the queue.\<close>

definition deleteQueue_lib ::
  "connect_replies \<Rightarrow> bool \<Rightarrow> Listener_lib \<Rightarrow> unit promise \<times> Listener_lib \<times> broker_op list" where
  "deleteQueue_lib rep ok l =
     (case connect_lib rep l of
        (Rejected err, l1, ops1) \<Rightarrow> (Rejected err, l1, ops1)
      | (Fulfilled ch, l1, ops1) \<Rightarrow>
          if \<not> ok then (Rejected BrokerError, l1, ops1 @ [DeleteQueue (queueName l1)])
          else (case close_lib l1 of
                  (l2, ops2) \<Rightarrow> (Fulfilled (), l2, ops1 @ [DeleteQueue (queueName l1)] @ ops2)))"

text \<open>
  The handler of the connection's \<^verbatim>\<open>reconnect\<close> event that the constructor installs,
  and the handler of the channel's \<^verbatim>\<open>error\<close> event that \<^verbatim>\<open>connect()\<close> installs.
\<close>

definition onReconnect_lib ::
  "connect_replies \<Rightarrow> string option \<Rightarrow> Listener_lib \<Rightarrow>
   Listener_lib \<times> broker_op list \<times> listener_event list" where
  "onReconnect_lib rep tag l =
     (if reconnects l then
        (case channel l of
           None \<Rightarrow> (l, [], [])
         | Some ch \<Rightarrow>
             let l1 = l\<lparr>invalidated := ch # invalidated l, channel := None,
                        consumerTag := None\<rparr>
             in if truthy (consumerTag l) then
                  (case resume_lib rep tag l1 of
                     (Rejected err, l2, ops2) \<Rightarrow> (l2, ops2, [ErrorEvent])
                   | (Fulfilled u, l2, ops2) \<Rightarrow> (l2, ops2, []))
                else
                  (case connect_lib rep l1 of
                     (Rejected err, l2, ops2) \<Rightarrow> (l2, ops2, [ErrorEvent])
                   | (Fulfilled c, l2, ops2) \<Rightarrow> (l2, ops2, [])))
      else (l, [], [ErrorEvent]))"

definition onChannelError_lib :: "Listener_lib \<Rightarrow> Listener_lib \<times> listener_event list" where
  "onChannelError_lib l = (l\<lparr>channel := None\<rparr>, [ErrorEvent])"

text \<open>
  The state of a listener of \<^verbatim>\<open>src/pulselistener.js\<close>. \<open>ns_src\<close> is
  \<^verbatim>\<open>this._connection.namespace\<close>; \<^verbatim>\<open>_queueName\<close> is undefined until the first
  \<^verbatim>\<open>connect()\<close> gets a channel.
\<close>

record Listener_src =
  bindings_src :: "Binding list"
  queueName_src :: "string option"
  channel_src :: "nat option"
  consumerTag_src :: "string option"
  ns_src :: string
  opts_src :: listener_options

definition PulseListener_src :: "string \<Rightarrow> listener_options \<Rightarrow> Listener_src" where
  "PulseListener_src ns options =
     \<lparr>bindings_src = [], queueName_src = None, channel_src = None, consumerTag_src = None,
      ns_src = ns, opts_src = options\<rparr>"

definition queueArg :: "string option \<Rightarrow> string" where
  "queueArg q = (case q of None \<Rightarrow> ''undefined'' | Some n \<Rightarrow> n)"

definition bind_src ::
  "bool \<Rightarrow> Binding \<Rightarrow> Listener_src \<Rightarrow> unit promise \<times> Listener_src \<times> broker_op list" where
  "bind_src ok binding l =
     (let l1 = l\<lparr>bindings_src := bindings_src l @ [binding]\<rparr>
      in case channel_src l1 of
           Some ch \<Rightarrow>
             (if ok then Fulfilled () else Rejected BrokerError, l1,
              [BindQueue (queueArg (queueName_src l1)) (exchange binding)
                 (routingKeyPattern binding)])
         | None \<Rightarrow> (Fulfilled (), l1, []))"

text \<open>\<^verbatim>\<open>connect()\<close>; \<open>slug\<close> is what this call's \<^verbatim>\<open>slugid.v4()\<close> returns.\<close>

definition connect_src ::
  "string \<Rightarrow> connect_replies \<Rightarrow> Listener_src \<Rightarrow> nat promise \<times> Listener_src \<times> broker_op list" where
  "connect_src slug rep l =
     (case channel_src l of
        Some ch \<Rightarrow> (Fulfilled ch, l, [])
      | None \<Rightarrow>
          if \<not> connection_ok rep then (Rejected BrokerError, l, [])
          else
            (case channel_given rep of
               None \<Rightarrow> (Rejected BrokerError, l, [CreateConfirmChannel])
             | Some ch \<Rightarrow>
                 let excl = (\<not> truthy (queueName_opt (opts_src l)));
                     q = ''queue/'' @ ns_src l @ ''/'' @
                         orElse (queueName_opt (opts_src l)) ''exclusive'' @ ''/'' @ slug;
                     l1 = l\<lparr>queueName_src := Some q\<rparr>;
                     ops1 = [CreateConfirmChannel, Prefetch (prefetch (opts_src l))];
                     ops2 = ops1 @ [AssertQueue q excl (\<not> excl) excl (maxLength (opts_src l))];
                     ops3 = ops2 @ bindAll q (bindings_src l)
                 in if \<not> prefetch_ok rep then (Rejected BrokerError, l1, ops1)
                    else if \<not> assertQueue_ok rep then (Rejected BrokerError, l1, ops2)
                    else if list_all (bindQueue_ok rep) [0 ..< length (bindings_src l)]
                    then (Fulfilled ch, l1\<lparr>channel_src := Some ch\<rparr>, ops3)
                    else (Rejected BrokerError, l1\<lparr>channel_src := Some ch\<rparr>, ops3)))"

definition resume_src ::
  "string \<Rightarrow> connect_replies \<Rightarrow> string option \<Rightarrow> Listener_src \<Rightarrow>
   unit promise \<times> Listener_src \<times> broker_op list" where
  "resume_src slug rep tag l =
     (case connect_src slug rep l of
        (Rejected err, l1, ops1) \<Rightarrow> (Rejected err, l1, ops1)
      | (Fulfilled ch, l1, ops1) \<Rightarrow>
          (case tag of
             None \<Rightarrow>
               (Rejected BrokerError, l1,
                ops1 @ [Consume (queueArg (queueName_src l1))])
           | Some t \<Rightarrow>
               (Fulfilled (), l1\<lparr>consumerTag_src := Some t\<rparr>,
                ops1 @ [Consume (queueArg (queueName_src l1))])))"

text \<open>\<^verbatim>\<open>pause()\<close> throws when there is no channel and otherwise cancels.\<close>

definition pause_src :: "Listener_src \<Rightarrow> unit promise \<times> Listener_src \<times> broker_op list" where
  "pause_src l =
     (if channel_src l = None then (Rejected PlainError, l, [])
      else (Fulfilled (), l, [Cancel (consumerTag_src l)]))"

definition close_src :: "Listener_src \<Rightarrow> Listener_src \<times> broker_op list" where
  "close_src l =
     (if shared (opts_src l) \<and> channel_src l \<noteq> None then (l\<lparr>channel_src := None\<rparr>, [])
      else (l\<lparr>channel_src := None\<rparr>, [CloseConnection]))"

definition deleteQueue_src ::
  "string \<Rightarrow> connect_replies \<Rightarrow> bool \<Rightarrow> Listener_src \<Rightarrow>
   unit promise \<times> Listener_src \<times> broker_op list" where
  "deleteQueue_src slug rep ok l =
     (case connect_src slug rep l of
        (Rejected err, l1, ops1) \<Rightarrow> (Rejected err, l1, ops1)
      | (Fulfilled ch, l1, ops1) \<Rightarrow>
          let del = DeleteQueue (queueArg (queueName_src l1))
          in if \<not> ok then (Rejected BrokerError, l1, ops1 @ [del])
             else (case close_src l1 of
                     (l2, ops2) \<Rightarrow> (Fulfilled (), l2, ops1 @ [del] @ ops2)))"

definition onChannelError_src :: "Listener_src \<Rightarrow> Listener_src \<times> listener_event list" where
  "onChannelError_src l = (l\<lparr>channel_src := None\<rparr>, [ErrorEvent])"

section \<open>Handling a delivery\<close>

text \<open>
  The message object of amqplib as far as \<^verbatim>\<open>_handle\<close> reads it; \<open>headers_CC\<close> is
  the \<^verbatim>\<open>CC\<close> header when it is an array. The decoded message is what the handlers
  receive; \<open>routing\<close> is \<open>None\<close> while the property is not set.
\<close>

record delivery =
  content :: string
  fields_exchange :: string
  fields_routingKey :: string
  fields_redelivered :: bool
  headers_CC :: "string list option"

record 'p message =
  payload :: 'p
  message_exchange :: string
  routingKey :: string
  redelivered :: bool
  routes :: "string list"
  routing :: "routing option"

text \<open>
  \<^verbatim>\<open>/^route\.(.*)$/.exec(route)[1]\<close>: the dot of a regular expression matches no
  line terminator (of those, a byte string can hold line feed and carriage return).
\<close>

definition routeSuffix :: "string \<Rightarrow> string option" where
  "routeSuffix route =
     (if take 6 route = ''route.'' \<and>
         filter (\<lambda>c. c = CHR 0x0A \<or> c = CHR 0x0D) (drop 6 route) = []
      then Some (drop 6 route) else None)"

definition ccRoutes :: "string list option \<Rightarrow> string list" where
  "ccRoutes cc = (case cc of None \<Rightarrow> [] | Some rs \<Rightarrow> List.map_filter routeSuffix rs)"

text \<open>
  A handler registered for \<^verbatim>\<open>message\<close> works on the state of the application when
  it is called. The promise \<^verbatim>\<open>Promise.resolve(null).then(() => handler(message))\<close>
  made of its call resolves, or rejects with a reason (what the handler threw, or
  what the promise it returned rejected with), or stays pending for ever. Of a
  reason \<^verbatim>\<open>_handle\<close> reads only \<^verbatim>\<open>err.stack\<close>, which throws a \<^verbatim>\<open>TypeError\<close> when
  the reason is \<^verbatim>\<open>undefined\<close> or \<^verbatim>\<open>null\<close> (\<open>Nullish\<close>) and is a plain read for
  every other value (\<open>Value\<close>). With the outcome comes the instant at which the
  promise settles: \<open>0\<close> when the handler itself returns a plain value or throws,
  a later instant when it returns a promise that settles later (the instant of a
  pending promise is not read). A handler is taken to leave the message object as it
  gets it.
\<close>

datatype reason = Nullish | Value

datatype outcome = Resolves | Rejects reason | Pending

type_synonym settling = "outcome \<times> nat"

type_synonym ('p, 'u) handler = "'p message \<Rightarrow> 'u \<Rightarrow> settling \<times> 'u"

text \<open>
  The reactions that call the handlers are queued by \<^verbatim>\<open>map\<close> before anything else,
  so every handler is called, in the order of registration and each with the same
  message, before any promise of the chain is looked at.
\<close>

fun runHandlers ::
  "('p, 'u) handler list \<Rightarrow> 'p message \<Rightarrow> 'u \<Rightarrow> settling list \<times> 'u" where
  "runHandlers [] m u = ([], u)"
| "runHandlers (h # hs) m u =
     (case h m u of
        (out, u1) \<Rightarrow> (case runHandlers hs m u1 of (outs, u2) \<Rightarrow> (out # outs, u2)))"

text \<open>
  What happens after the handlers were called, in the order of time: the promise of
  the handler at a position settles, a method of the channel is called, the listener
  emits an event.
\<close>

datatype moment = Settles nat | Calls broker_op | Emits listener_event

fun calls :: "moment list \<Rightarrow> broker_op list" where
  "calls [] = []"
| "calls (Calls c # xs) = c # calls xs"
| "calls (Settles i # xs) = calls xs"
| "calls (Emits e # xs) = calls xs"

fun emits :: "moment list \<Rightarrow> listener_event list" where
  "emits [] = []"
| "emits (Emits e # xs) = e # emits xs"
| "emits (Settles i # xs) = emits xs"
| "emits (Calls c # xs) = emits xs"

text \<open>
  \<^verbatim>\<open>Promise.all\<close> rejects as soon as one of its promises rejects, with the reason of
  that promise: the rejection at the earliest instant, and of several at one instant
  the one of the handler registered first. It resolves once all have resolved.
  \<open>settlementOrder\<close> lists the positions of the handlers whose promises settle, by
  instant (and by position within one instant).
\<close>

fun firstRejection :: "settling list \<Rightarrow> (nat \<times> reason) option" where
  "firstRejection [] = None"
| "firstRejection ((Resolves, t) # xs) = firstRejection xs"
| "firstRejection ((Pending, t) # xs) = firstRejection xs"
| "firstRejection ((Rejects err, t) # xs) =
     (case firstRejection xs of
        None \<Rightarrow> Some (t, err)
      | Some (t', err') \<Rightarrow> if t' < t then Some (t', err') else Some (t, err))"

definition settlementOrder :: "settling list \<Rightarrow> nat list" where
  "settlementOrder outs =
     sort_key (\<lambda>i. snd (outs ! i)) (filter (\<lambda>i. fst (outs ! i) \<noteq> Pending) [0 ..< length outs])"

text \<open>What one call of \<^verbatim>\<open>_handle\<close> has done: the exception it left with, if any,
  the message given to the handlers, the application's state, the calls on the
  channel and the events emitted.\<close>

record ('p, 'u) handled =
  thrown :: "error option"
  delivered :: "'p message option"
  user :: 'u
  ops :: "broker_op list"
  emitted :: "listener_event list"

text \<open>
  The reference for a delivery in \<^verbatim>\<open>lib/pulselistener.js\<close>: \<^verbatim>\<open>forEach\<close> over the
  bindings, each matching binding overwriting the variable.
\<close>

definition findReference_lib :: "Binding list \<Rightarrow> string \<Rightarrow> FieldSpec list option" where
  "findReference_lib bs ex =
     foldl (\<lambda>routingKeyReference_var binding.
              if exchange binding = ex \<and> routingKeyReference binding \<noteq> None
              then routingKeyReference binding else routingKeyReference_var)
       None bs"

text \<open>
  In \<^verbatim>\<open>src/pulselistener.js\<close>: \<^verbatim>\<open>reduce\<close> with no initial value. It throws on an
  empty array; otherwise the accumulator starts as the first binding itself, and the
  callback, which does not read it, runs from the second binding on.
\<close>

datatype reduced = RBinding Binding | RReference "FieldSpec list option"

definition findReference_src :: "Binding list \<Rightarrow> string \<Rightarrow> error + reduced" where
  "findReference_src bs ex =
     (case bs of
        [] \<Rightarrow> Inl TypeError
      | b # rest \<Rightarrow>
          Inr (foldl (\<lambda>acc binding.
                        RReference (if exchange binding = ex \<and> routingKeyReference binding \<noteq> None
                                    then routingKeyReference binding else None))
                 (RBinding b) rest))"

text \<open>
  The end of \<^verbatim>\<open>_handle\<close> in \<^verbatim>\<open>lib/pulselistener.js\<close>:
  \<^verbatim>\<open>Promise.all(...).then(ack).then(null, onRejected).then(null, emit)\<close>. \<open>ack_ok\<close>
  and \<open>nack_ok\<close> say whether the channel's \<^verbatim>\<open>ack\<close> and \<^verbatim>\<open>nack\<close> return (what they
  throw is an \<^verbatim>\<open>Error\<close> object, a \<open>Value\<close>); \<open>inval\<close> is the channel's
  \<^verbatim>\<open>__invalidated\<close>. The second callback evaluates \<^verbatim>\<open>err.stack\<close> for its
  \<^verbatim>\<open>debug\<close> line before it does anything else; what it throws, and what \<^verbatim>\<open>nack\<close>
  throws, reaches the third callback, which emits \<^verbatim>\<open>error\<close>.
\<close>

definition onRejected_lib :: "bool \<Rightarrow> bool \<Rightarrow> bool \<Rightarrow> reason \<Rightarrow> moment list" where
  "onRejected_lib nack_ok inval redeliv err =
     (case err of
        Nullish \<Rightarrow> [Emits ErrorEvent]
      | Value \<Rightarrow>
          if inval then []
          else if redeliv then Calls (Nack False) # (if nack_ok then [] else [Emits ErrorEvent])
          else Calls (Nack True) # (if nack_ok then [] else [Emits ErrorEvent]))"

definition settle_lib :: "bool \<Rightarrow> bool \<Rightarrow> bool \<Rightarrow> bool \<Rightarrow> settling list \<Rightarrow> moment list" where
  "settle_lib ack_ok nack_ok inval redeliv outs =
     (let order = settlementOrder outs
      in case firstRejection outs of
           Some (t, err) \<Rightarrow>
             map Settles (filter (\<lambda>i. snd (outs ! i) \<le> t) order) @
             onRejected_lib nack_ok inval redeliv err @
             map Settles (filter (\<lambda>i. t < snd (outs ! i)) order)
         | None \<Rightarrow>
             if list_ex (\<lambda>out. fst out = Pending) outs then map Settles order
             else map Settles order @
                  Calls Ack # (if ack_ok then [] else onRejected_lib nack_ok inval redeliv Value))"

text \<open>
  In \<^verbatim>\<open>src/pulselistener.js\<close> the calls go to \<^verbatim>\<open>this._channel\<close>, and calling a
  method of \<^verbatim>\<open>null\<close> throws a \<^verbatim>\<open>TypeError\<close>; there is no \<^verbatim>\<open>__invalidated\<close>.
\<close>

definition onRejected_src :: "bool \<Rightarrow> nat option \<Rightarrow> bool \<Rightarrow> reason \<Rightarrow> moment list" where
  "onRejected_src nack_ok chan redeliv err =
     (case err of
        Nullish \<Rightarrow> [Emits ErrorEvent]
      | Value \<Rightarrow>
          if chan = None then [Emits ErrorEvent]
          else if redeliv then Calls (Nack False) # (if nack_ok then [] else [Emits ErrorEvent])
          else Calls (Nack True) # (if nack_ok then [] else [Emits ErrorEvent]))"

definition settle_src ::
  "bool \<Rightarrow> bool \<Rightarrow> nat option \<Rightarrow> bool \<Rightarrow> settling list \<Rightarrow> moment list" where
  "settle_src ack_ok nack_ok chan redeliv outs =
     (let order = settlementOrder outs
      in case firstRejection outs of
           Some (t, err) \<Rightarrow>
             map Settles (filter (\<lambda>i. snd (outs ! i) \<le> t) order) @
             onRejected_src nack_ok chan redeliv err @
             map Settles (filter (\<lambda>i. t < snd (outs ! i)) order)
         | None \<Rightarrow>
             if list_ex (\<lambda>out. fst out = Pending) outs then map Settles order
             else if chan = None
             then map Settles order @ onRejected_src nack_ok chan redeliv Value
             else map Settles order @
                  Calls Ack # (if ack_ok then [] else onRejected_src nack_ok chan redeliv Value))"

text \<open>
  \<^verbatim>\<open>_handle(msg, channel)\<close> of \<^verbatim>\<open>lib/pulselistener.js\<close>. \<open>JSON_parse\<close> stands for
  \<^verbatim>\<open>JSON.parse(msg.content.toString('utf8'))\<close>, \<open>None\<close> when it throws.
  \<open>newMessage\<close> is the object both listeners build first (the older one fills in
  the routes by the statement that follows); then the reference is looked up and,
  if there is one, the routing key parsed.
\<close>

definition newMessage :: "delivery \<Rightarrow> 'p \<Rightarrow> 'p message" where
  "newMessage msg p =
     \<lparr>payload = p, message_exchange = fields_exchange msg,
      routingKey = fields_routingKey msg,
      redelivered = fields_redelivered msg,
      routes = ccRoutes (headers_CC msg), routing = None\<rparr>"

definition message_lib :: "Binding list \<Rightarrow> delivery \<Rightarrow> 'p \<Rightarrow> 'p message" where
  "message_lib bs msg p =
     (let message = newMessage msg p
      in case findReference_lib bs (message_exchange message) of
           None \<Rightarrow> message
         | Some ref \<Rightarrow> message\<lparr>routing := parseRoutingKey ref (routingKey message)\<rparr>)"

definition handle_lib ::
  "(string \<Rightarrow> 'p option) \<Rightarrow> ('p, 'u) handler list \<Rightarrow> bool \<Rightarrow> bool \<Rightarrow>
   Listener_lib \<Rightarrow> delivery \<Rightarrow> nat \<Rightarrow> 'u \<Rightarrow> ('p, 'u) handled" where
  "handle_lib JSON_parse handlers ack_ok nack_ok l msg ch u =
     (case JSON_parse (content msg) of
        None \<Rightarrow> \<lparr>thrown = Some SyntaxError, delivered = None, user = u, ops = [], emitted = []\<rparr>
      | Some p \<Rightarrow>
          let message = message_lib (bindings l) msg p
          in case runHandlers handlers message u of
               (outs, u1) \<Rightarrow>
                 (let after = settle_lib ack_ok nack_ok (ch \<in> set (invalidated l))
                                (redelivered message) outs
                  in \<lparr>thrown = None, delivered = Some message, user = u1,
                      ops = calls after, emitted = emits after\<rparr>))"

text \<open>
  \<^verbatim>\<open>_handle(msg)\<close> of \<^verbatim>\<open>src/pulselistener.js\<close>, an \<^verbatim>\<open>async\<close> function: what it
  throws rejects the promise it returns. A reduced value that is a binding has no
  \<^verbatim>\<open>length\<close>, so both loops are skipped and \<^verbatim>\<open>routing\<close> is the empty object.
\<close>

definition message_src :: "Binding list \<Rightarrow> delivery \<Rightarrow> 'p \<Rightarrow> error + 'p message" where
  "message_src bs msg p =
     (let message = newMessage msg p
      in case findReference_src bs (message_exchange message) of
           Inl err \<Rightarrow> Inl err
         | Inr (RReference None) \<Rightarrow> Inr message
         | Inr (RReference (Some ref)) \<Rightarrow>
             Inr (message\<lparr>routing := parseRoutingKey ref (routingKey message)\<rparr>)
         | Inr (RBinding b) \<Rightarrow> Inr (message\<lparr>routing := Some []\<rparr>))"

definition handle_src ::
  "(string \<Rightarrow> 'p option) \<Rightarrow> ('p, 'u) handler list \<Rightarrow> bool \<Rightarrow> bool \<Rightarrow>
   Listener_src \<Rightarrow> delivery \<Rightarrow> 'u \<Rightarrow> ('p, 'u) handled" where
  "handle_src JSON_parse handlers ack_ok nack_ok l msg u =
     (case JSON_parse (content msg) of
        None \<Rightarrow> \<lparr>thrown = Some SyntaxError, delivered = None, user = u, ops = [], emitted = []\<rparr>
      | Some p \<Rightarrow>
          (case message_src (bindings_src l) msg p of
             Inl err \<Rightarrow> \<lparr>thrown = Some err, delivered = None, user = u, ops = [], emitted = []\<rparr>
           | Inr message \<Rightarrow>
               (case runHandlers handlers message u of
                  (outs, u1) \<Rightarrow>
                    (let after = settle_src ack_ok nack_ok (channel_src l)
                                   (redelivered message) outs
                     in \<lparr>thrown = None, delivered = Some message, user = u1,
                         ops = calls after, emitted = emits after\<rparr>))))"

section \<open>A listener over its lifetime\<close>

text \<open>
  What can happen to a listener of \<^verbatim>\<open>lib/pulselistener.js\<close> after its construction:
  a call of one of its methods, the connection's \<^verbatim>\<open>reconnect\<close> event or its
  channel's \<^verbatim>\<open>error\<close> event, each with the answers of the broker. (\<^verbatim>\<open>_handle\<close>
  assigns to no property of the listener.)
\<close>

datatype action_lib =
    Bind_lib bool Binding
  | Connect_lib connect_replies
  | Resume_lib connect_replies "string option"
  | Pause_lib
  | Close_lib
  | DeleteQueue_lib connect_replies bool
  | Reconnect_lib connect_replies "string option"
  | ChannelError_lib

fun step_lib :: "action_lib \<Rightarrow> Listener_lib \<Rightarrow> Listener_lib" where
  "step_lib (Bind_lib ok b) l = fst (snd (bind_lib ok b l))"
| "step_lib (Connect_lib rep) l = fst (snd (connect_lib rep l))"
| "step_lib (Resume_lib rep tag) l = fst (snd (resume_lib rep tag l))"
| "step_lib Pause_lib l = fst (pause_lib l)"
| "step_lib Close_lib l = fst (close_lib l)"
| "step_lib (DeleteQueue_lib rep ok) l = fst (snd (deleteQueue_lib rep ok l))"
| "step_lib (Reconnect_lib rep tag) l = fst (onReconnect_lib rep tag l)"
| "step_lib ChannelError_lib l = fst (onChannelError_lib l)"

definition run_lib :: "action_lib list \<Rightarrow> Listener_lib \<Rightarrow> Listener_lib" where
  "run_lib acts l = foldl (\<lambda>l' a. step_lib a l') l acts"

text \<open>The same for \<^verbatim>\<open>src/pulselistener.js\<close>, which has no handler for
  \<^verbatim>\<open>reconnect\<close>; each call that may connect comes with the slug it would draw.\<close>

datatype action_src =
    Bind_src bool Binding
  | Connect_src string connect_replies
  | Resume_src string connect_replies "string option"
  | Pause_src
  | Close_src
  | DeleteQueue_src string connect_replies bool
  | ChannelError_src

fun step_src :: "action_src \<Rightarrow> Listener_src \<Rightarrow> Listener_src" where
  "step_src (Bind_src ok b) l = fst (snd (bind_src ok b l))"
| "step_src (Connect_src slug rep) l = fst (snd (connect_src slug rep l))"
| "step_src (Resume_src slug rep tag) l = fst (snd (resume_src slug rep tag l))"
| "step_src Pause_src l = fst (snd (pause_src l))"
| "step_src Close_src l = fst (close_src l)"
| "step_src (DeleteQueue_src slug rep ok) l = fst (snd (deleteQueue_src slug rep ok l))"
| "step_src ChannelError_src l = fst (onChannelError_src l)"

definition run_src :: "action_src list \<Rightarrow> Listener_src \<Rightarrow> Listener_src" where
  "run_src acts l = foldl (\<lambda>l' a. step_src a l') l acts"

section \<open>Properties of the connection\<close>

lemma rethrowOrRetry_fast:
  "now - lastReconnect c \<le> retryResetTime opts \<Longrightarrow>
   rethrowOrRetry opts now c =
     (if reconnectAttempts c + 1 > retries opts then Rethrow else Retry,
      c\<lparr>lastReconnect := now, reconnectAttempts := reconnectAttempts c + 1\<rparr>)"
  by (simp add: rethrowOrRetry_def Let_def)

lemma rethrowOrRetry_slow:
  "now - lastReconnect c > retryResetTime opts \<Longrightarrow>
   rethrowOrRetry opts now c =
     (if 0 > retries opts then Rethrow else Retry,
      c\<lparr>lastReconnect := now, reconnectAttempts := 0\<rparr>)"
  by (simp add: rethrowOrRetry_def Let_def)

text \<open>
  With \<open>k\<close> retries left and every dial failing within the reset time, the loop dials
  \<open>k + 1\<close> times and rejects; the counter ends one above the budget.
\<close>

lemma connectLoop_all_fail:
  "k = nat (retries opts - reconnectAttempts c) \<Longrightarrow>
   0 \<le> reconnectAttempts c \<Longrightarrow> reconnectAttempts c \<le> retries opts \<Longrightarrow>
   k + 1 \<le> length ds \<Longrightarrow>
   list_all (\<lambda>d. answer d = None \<and> took d \<le> retryResetTime opts) (take (k + 1) ds) \<Longrightarrow>
   \<exists>r. connectLoop opts ds now c n = Some r \<and> result r = Rejected BrokerError \<and>
       dials r = n + k + 1 \<and> events r = [] \<and>
       reconnectAttempts (connection r) = retries opts + 1 \<and>
       conn (connection r) = conn c \<and> connecting (connection r) = connecting c"
proof (induction k arbitrary: c ds now n)
  case 0
  then obtain d ds' where ds: "ds = d # ds'" by (cases ds) auto
  from 0 have eq: "reconnectAttempts c = retries opts" by simp
  from 0 ds have d: "answer d = None" "took d \<le> retryResetTime opts" by simp_all
  show ?case using d eq
    by (simp add: ds Let_def rethrowOrRetry_fast)
next
  case (Suc k)
  then obtain d ds' where ds: "ds = d # ds'" by (cases ds) auto
  from Suc ds have d: "answer d = None" "took d \<le> retryResetTime opts" by simp_all
  from Suc have lt: "reconnectAttempts c < retries opts" by simp
  let ?now1 = "if reconnectAttempts c > 0 then now + slept d else now"
  let ?c2 = "c\<lparr>lastReconnect := ?now1 + took d, reconnectAttempts := reconnectAttempts c + 1\<rparr>"
  have step: "connectLoop opts ds now c n = connectLoop opts ds' (?now1 + took d) ?c2 (n + 1)"
    using d lt by (simp add: ds Let_def rethrowOrRetry_fast)
  have "\<exists>r. connectLoop opts ds' (?now1 + took d) ?c2 (n + 1) = Some r \<and>
       result r = Rejected BrokerError \<and>
       dials r = (n + 1) + k + 1 \<and> events r = [] \<and>
       reconnectAttempts (connection r) = retries opts + 1 \<and>
       conn (connection r) = conn ?c2 \<and> connecting (connection r) = connecting ?c2"
    apply (rule Suc.IH)
    using Suc.prems lt ds by auto
  then show ?case using step by auto
qed

text \<open>
  C2. A new connection with retry budget \<open>retries \<ge> 0\<close>, whose first
  \<open>retries + 1\<close> dials all fail, each within the reset time, makes exactly
  \<open>retries + 1\<close> dials however many more answers are on offer; \<^verbatim>\<open>connect()\<close> then
  rejects, emits one \<^verbatim>\<open>error\<close> and leaves \<^verbatim>\<open>_connecting\<close> null.
\<close>

theorem connect_attempts_exhaust_retries:
  assumes "0 \<le> retries opts"
    and "nat (retries opts) + 1 \<le> length ds"
    and "list_all (\<lambda>d. answer d = None \<and> took d \<le> retryResetTime opts)
           (take (nat (retries opts) + 1) ds)"
  shows "\<exists>r. connect opts ds now (newPulseConnection t0) = Some r \<and>
           result r = Rejected BrokerError \<and>
           dials r = nat (retries opts) + 1 \<and>
           events r = [ConnError] \<and>
           reconnectAttempts (connection r) = retries opts + 1 \<and>
           conn (connection r) = None \<and> connecting (connection r) = None"
proof -
  let ?c = "newPulseConnection t0"
  have c: "reconnectAttempts ?c = 0" "connecting ?c = None" "conn ?c = None"
    by (simp_all add: newPulseConnection_def)
  have "\<exists>r. connectLoop opts ds now ?c 0 = Some r \<and> result r = Rejected BrokerError \<and>
       dials r = 0 + nat (retries opts) + 1 \<and> events r = [] \<and>
       reconnectAttempts (connection r) = retries opts + 1 \<and>
       conn (connection r) = conn ?c \<and> connecting (connection r) = connecting ?c"
    by (rule connectLoop_all_fail) (use assms c in simp_all)
  then obtain r where r: "connectLoop opts ds now ?c 0 = Some r"
    "result r = Rejected BrokerError" "dials r = nat (retries opts) + 1"
    "reconnectAttempts (connection r) = retries opts + 1" "conn (connection r) = None"
    using c by auto
  show ?thesis using r c by (simp add: connect_def)
qed

text \<open>
  The instances of the specification: a budget of 2 gives 3 dials although a fourth
  would have succeeded, a budget of 0 gives 1.
\<close>

theorem connect_attempts_exhaust_retries_witness:
  "(\<exists>r. connect \<lparr>reconnect = True, retryResetTime = 300000, retries = 2\<rparr>
          [\<lparr>slept = 0, took = 10, answer = None\<rparr>, \<lparr>slept = 500, took = 10, answer = None\<rparr>,
           \<lparr>slept = 1000, took = 10, answer = None\<rparr>, \<lparr>slept = 2000, took = 10, answer = Some 7\<rparr>]
          0 (newPulseConnection 0) = Some r \<and>
        result r = Rejected BrokerError \<and> dials r = 3 \<and> events r = [ConnError]) \<and>
   (\<exists>r. connect \<lparr>reconnect = True, retryResetTime = 300000, retries = 0\<rparr>
          [\<lparr>slept = 0, took = 10, answer = None\<rparr>, \<lparr>slept = 500, took = 10, answer = Some 7\<rparr>]
          0 (newPulseConnection 0) = Some r \<and>
        result r = Rejected BrokerError \<and> dials r = 1 \<and> events r = [ConnError])"
  using connect_attempts_exhaust_retries
          [of "\<lparr>reconnect = True, retryResetTime = 300000, retries = 2\<rparr>"
              "[\<lparr>slept = 0, took = 10, answer = None\<rparr>, \<lparr>slept = 500, took = 10, answer = None\<rparr>,
                \<lparr>slept = 1000, took = 10, answer = None\<rparr>,
                \<lparr>slept = 2000, took = 10, answer = Some 7\<rparr>]" 0 0]
        connect_attempts_exhaust_retries
          [of "\<lparr>reconnect = True, retryResetTime = 300000, retries = 0\<rparr>"
              "[\<lparr>slept = 0, took = 10, answer = None\<rparr>,
                \<lparr>slept = 500, took = 10, answer = Some 7\<rparr>]" 0 0]
  by auto

text \<open>
  C3, as the code has it. When more than \<^verbatim>\<open>retryResetTime\<close> has passed since the
  last attempt, \<^verbatim>\<open>_rethrowOrRetry\<close> sets the counter to \<^verbatim>\<open>-1\<close> and then counts the
  failure, which leaves it at 0: for a budget \<open>retries \<ge> 0\<close> the error is not rethrown,
  whatever the counter was. So the loop of \<^verbatim>\<open>connect()\<close> goes on to the next dial,
  and an error of an established connection, when reconnecting is enabled, emits
  \<^verbatim>\<open>reconnect\<close> and connects again.
\<close>

theorem failure_after_reset_time_is_retried:
  assumes "0 \<le> retries opts"
  shows "(retryResetTime opts < now - lastReconnect c \<longrightarrow>
            rethrowOrRetry opts now c =
              (Retry, c\<lparr>lastReconnect := now, reconnectAttempts := 0\<rparr>)) \<and>
         (answer d = None \<and> retryResetTime opts < took d \<longrightarrow>
            connectLoop opts (d # ds) now c n =
              connectLoop opts ds
                ((if reconnectAttempts c > 0 then now + slept d else now) + took d)
                (c\<lparr>lastReconnect := (if reconnectAttempts c > 0 then now + slept d else now)
                                      + took d,
                   reconnectAttempts := 0\<rparr>)
                (n + 1)) \<and>
         (reconnect opts \<and> retryResetTime opts < now - lastReconnect c \<longrightarrow>
            onError opts ds now c =
              (case connect opts ds now
                      (c\<lparr>conn := None, connecting := None, lastReconnect := now,
                         reconnectAttempts := 0\<rparr>) of
                 None \<Rightarrow> None
               | Some r \<Rightarrow> Some (r\<lparr>events := Reconnect # events r\<rparr>)))"
  using assms by (simp add: rethrowOrRetry_slow Let_def onError_def)

theorem failure_after_reset_time_is_retried_witness:
  "rethrowOrRetry \<lparr>reconnect = True, retryResetTime = 5, retries = 2\<rparr> 10
     \<lparr>conn = None, connecting = None, lastReconnect = 0, reconnectAttempts = 3\<rparr> =
   (Retry, \<lparr>conn = None, connecting = None, lastReconnect = 10, reconnectAttempts = 0\<rparr>)"
  using failure_after_reset_time_is_retried
          [of "\<lparr>reconnect = True, retryResetTime = 5, retries = 2\<rparr>" 10
              "\<lparr>conn = None, connecting = None, lastReconnect = 0, reconnectAttempts = 3\<rparr>"]
  by simp

text \<open>
  Against C3 as stated (the counter reset to 0 before the failure is counted): with
  a budget of 2 used up, the code leaves the counter at 0 where that wording gives 1,
  and with a budget of 0 the code retries where that wording rethrows.
\<close>

theorem reset_counts_from_zero_counterexample:
  "reconnectAttempts (snd (rethrowOrRetry \<lparr>reconnect = True, retryResetTime = 5, retries = 2\<rparr> 10
     \<lparr>conn = None, connecting = None, lastReconnect = 0, reconnectAttempts = 3\<rparr>)) = 0 \<and>
   reconnectAttempts (snd (rethrowOrRetry_as_specified
     \<lparr>reconnect = True, retryResetTime = 5, retries = 2\<rparr> 10
     \<lparr>conn = None, connecting = None, lastReconnect = 0, reconnectAttempts = 3\<rparr>)) = 1 \<and>
   fst (rethrowOrRetry \<lparr>reconnect = True, retryResetTime = 5, retries = 0\<rparr> 10
     \<lparr>conn = None, connecting = None, lastReconnect = 0, reconnectAttempts = 1\<rparr>) = Retry \<and>
   fst (rethrowOrRetry_as_specified \<lparr>reconnect = True, retryResetTime = 5, retries = 0\<rparr> 10
     \<lparr>conn = None, connecting = None, lastReconnect = 0, reconnectAttempts = 1\<rparr>) = Rethrow"
  by (simp add: rethrowOrRetry_def rethrowOrRetry_as_specified_def)

section \<open>Properties of the client\<close>

text \<open>
  C10. Given a string, \<^verbatim>\<open>_topic\<close> returns it as the pattern as it is, dots or not,
  and never fails; the exchange carries the prefix and the reference is attached.
\<close>

theorem topic_string_is_verbatim:
  "topic exchangePrefix e (PatternString s) =
     Inr \<lparr>exchange = exchangePrefix @ entry_exchange e, routingKeyPattern = s,
          routingKeyReference = Some (entry_routingKey e)\<rparr>"
  by (simp add: topic_def)

section \<open>Properties of the routing-key parse\<close>

text \<open>Where the two loops stop: at the first multi-word field from the front, and
  at the last one from the back.\<close>

lemma frontLoop_index:
  "frontLoop ref i keys r = (i', keys', r') \<Longrightarrow> i \<le> length ref \<Longrightarrow>
   i \<le> i' \<and> i' \<le> length ref \<and> (i' < length ref \<longrightarrow> multipleWords (ref ! i')) \<and>
   (\<forall>k. i \<le> k \<and> k < i' \<longrightarrow> \<not> multipleWords (ref ! k))"
proof (induction ref i keys r rule: frontLoop.induct)
  case (1 ref i keys r)
  show ?case
  proof (cases "i < length ref \<and> \<not> multipleWords (ref ! i)")
    case True
    with "1.prems" have rec: "frontLoop ref (i + 1) (snd (shift keys))
        (setProperty (name (ref ! i)) (fst (shift keys)) r) = (i', keys', r')"
      by (simp add: frontLoop.simps [of ref i])
    from "1.IH" [OF _ _ rec] True
    have ih: "i + 1 \<le> i' \<and> i' \<le> length ref \<and> (i' < length ref \<longrightarrow> multipleWords (ref ! i')) \<and>
      (\<forall>k. i + 1 \<le> k \<and> k < i' \<longrightarrow> \<not> multipleWords (ref ! k))" by simp
    have "\<And>k. i \<le> k \<Longrightarrow> k < i' \<Longrightarrow> \<not> multipleWords (ref ! k)"
    proof -
      fix k assume k: "i \<le> k" "k < i'"
      show "\<not> multipleWords (ref ! k)"
      proof (cases "k = i")
        case True' : True
        then show ?thesis using True by simp
      next
        case False
        then show ?thesis using k ih by simp
      qed
    qed
    with ih show ?thesis by auto
  next
    case False
    with "1.prems" have "i' = i"
      by (auto simp: frontLoop.simps [of ref i] split: if_splits)
    with False "1.prems" show ?thesis by auto
  qed
qed

lemma backLoop_index:
  "backLoop ref i j keys r = (j', keys', r') \<Longrightarrow> i \<le> j \<Longrightarrow>
   i \<le> j' \<and> j' \<le> j \<and> (i < j' \<longrightarrow> multipleWords (ref ! j')) \<and>
   (\<forall>k. j' < k \<and> k \<le> j \<longrightarrow> \<not> multipleWords (ref ! k))"
proof (induction ref i j keys r rule: backLoop.induct)
  case (1 ref i j keys r)
  show ?case
  proof (cases "i < j \<and> \<not> multipleWords (ref ! j)")
    case True
    with "1.prems" have rec: "backLoop ref i (j - 1) (snd (pop keys))
        (setProperty (name (ref ! j)) (fst (pop keys)) r) = (j', keys', r')"
      by (simp add: backLoop.simps [of ref i j])
    from True have ij: "i \<le> j - 1" by arith
    from True have c1: "i < j" and c2: "\<not> multipleWords (ref ! j)" by simp_all
    have ih: "i \<le> j' \<and> j' \<le> j - 1 \<and> (i < j' \<longrightarrow> multipleWords (ref ! j')) \<and>
      (\<forall>k. j' < k \<and> k \<le> j - 1 \<longrightarrow> \<not> multipleWords (ref ! k))"
      by (rule "1.IH" [OF c1 c2 rec ij])
    have rest: "\<not> multipleWords (ref ! k)" if k: "j' < k" "k \<le> j" for k
    proof (cases "k = j")
      case True
      then show ?thesis using c2 by simp
    next
      case False
      then have "k \<le> j - 1" using k by arith
      then show ?thesis using k ih by blast
    qed
    from ih have "j' \<le> j" by arith
    with ih rest show ?thesis by blast
  next
    case False
    with "1.prems" have "j' = j"
      by (auto simp: backLoop.simps [of ref i j] split: if_splits)
    with False "1.prems" show ?thesis by auto
  qed
qed

lemma filter_at_most_one:
  assumes "\<forall>k<length xs. P (xs ! k) \<longrightarrow> k = i"
  shows "length (filter P xs) \<le> 1"
proof -
  have "{k. k < length xs \<and> P (xs ! k)} \<subseteq> {i}" using assms by auto
  then have "card {k. k < length xs \<and> P (xs ! k)} \<le> card {i}"
    by (intro card_mono) auto
  then show ?thesis by (simp add: length_filter_conv_card)
qed

lemma parse_two_multi:
  assumes "1 < length (filter multipleWords ref)"
  shows "parseRoutingKey ref key = None"
proof -
  obtain i keys1 r1 where f: "frontLoop ref 0 (js_split CHR ''.'' key) [] = (i, keys1, r1)"
    by (cases "frontLoop ref 0 (js_split CHR ''.'' key) []") auto
  from frontLoop_index [OF f] have fi: "i \<le> length ref"
    and before: "\<forall>k. k < i \<longrightarrow> \<not> multipleWords (ref ! k)" by auto
  have il: "i < length ref"
  proof (rule ccontr)
    assume "\<not> i < length ref"
    with fi before have "\<forall>k<length ref. multipleWords (ref ! k) \<longrightarrow> k = 0" by simp
    from filter_at_most_one [OF this] assms show False by simp
  qed
  obtain j keys2 r2 where b: "backLoop ref i (length ref - 1) keys1 r1 = (j, keys2, r2)"
    by (cases "backLoop ref i (length ref - 1) keys1 r1") auto
  from il have "i \<le> length ref - 1" by arith
  from backLoop_index [OF b this] have
    after: "\<forall>k. j < k \<and> k \<le> length ref - 1 \<longrightarrow> \<not> multipleWords (ref ! k)" by blast
  have "i \<noteq> j"
  proof
    assume ij: "i = j"
    have "\<forall>k<length ref. multipleWords (ref ! k) \<longrightarrow> k = i"
    proof (intro allI impI)
      fix k assume k: "k < length ref" "multipleWords (ref ! k)"
      from k before have "\<not> k < i" by blast
      moreover from k have "k \<le> length ref - 1" by arith
      with k after ij have "\<not> i < k" by blast
      ultimately show "k = i" by arith
    qed
    from filter_at_most_one [OF this] assms show False by simp
  qed
  with f b il show ?thesis by (simp add: parseRoutingKey_def)
qed

section \<open>Properties of the reference lookup\<close>

lemma findReference_lib_snoc:
  "findReference_lib (bs @ [b]) ex =
     (if exchange b = ex \<and> routingKeyReference b \<noteq> None then routingKeyReference b
      else findReference_lib bs ex)"
  by (auto simp: findReference_lib_def)

lemma findReference_lib_last:
  "findReference_lib bs ex =
     (case filter (\<lambda>b. exchange b = ex \<and> routingKeyReference b \<noteq> None) bs of
        [] \<Rightarrow> None
      | m # ms \<Rightarrow> routingKeyReference (last (m # ms)))"
proof (induction bs rule: rev_induct)
  case Nil
  show ?case by (simp add: findReference_lib_def)
next
  case (snoc b bs)
  show ?case
  proof (cases "exchange b = ex \<and> routingKeyReference b \<noteq> None")
    case True
    let ?ms = "filter (\<lambda>b. exchange b = ex \<and> routingKeyReference b \<noteq> None) (bs @ [b])"
    obtain m ms where ms: "?ms = m # ms" using True by (cases ?ms) auto
    have "last ?ms = b" using True by simp
    then have "last (m # ms) = b" by (simp only: ms)
    then have "(case ?ms of [] \<Rightarrow> None | m # ms \<Rightarrow> routingKeyReference (last (m # ms))) =
               routingKeyReference b"
      by (simp only: ms list.case)
    moreover have "findReference_lib (bs @ [b]) ex = routingKeyReference b"
      using True by (subst findReference_lib_snoc) auto
    ultimately show ?thesis by simp
  next
    case False
    then have "filter (\<lambda>b. exchange b = ex \<and> routingKeyReference b \<noteq> None) (bs @ [b]) =
               filter (\<lambda>b. exchange b = ex \<and> routingKeyReference b \<noteq> None) bs"
      by auto
    moreover have "findReference_lib (bs @ [b]) ex = findReference_lib bs ex"
      using False by (subst findReference_lib_snoc) auto
    ultimately show ?thesis using snoc by (simp only:)
  qed
qed

section \<open>Properties of a delivery\<close>

lemma findReference_src_two:
  "findReference_src (b # bs @ [c]) ex =
     Inr (RReference (if exchange c = ex \<and> routingKeyReference c \<noteq> None
                      then routingKeyReference c else None))"
  by (simp add: findReference_src_def)



lemma message_src_Inr:
  "bs \<noteq> [] \<Longrightarrow> \<exists>m. message_src bs msg p = Inr m"
  by (cases bs)
     (auto simp: message_src_def findReference_src_def Let_def
           split: sum.splits reduced.splits option.splits)

text \<open>
  C5, as the older listener has it. When two or more recorded bindings match the
  exchange of the delivery and carry a reference, the reference used to parse the
  routing key is that of the last matching binding in binding order: each match
  overwrites the one before.
\<close>

theorem reference_of_last_matching_binding:
  assumes "2 \<le> length (filter (\<lambda>b. exchange b = fields_exchange msg \<and>
                                     routingKeyReference b \<noteq> None) bs)"
  shows "\<exists>ref. routingKeyReference
                 (last (filter (\<lambda>b. exchange b = fields_exchange msg \<and>
                                     routingKeyReference b \<noteq> None) bs)) = Some ref \<and>
               findReference_lib bs (fields_exchange msg) = Some ref \<and>
               routing (message_lib bs msg p) = parseRoutingKey ref (fields_routingKey msg)"
proof -
  let ?ms = "filter (\<lambda>b. exchange b = fields_exchange msg \<and> routingKeyReference b \<noteq> None) bs"
  from assms have ne: "?ms \<noteq> []" by auto
  then have "last ?ms \<in> set ?ms" by (rule last_in_set)
  then obtain ref where ref: "routingKeyReference (last ?ms) = Some ref" by auto
  from ne have f: "findReference_lib bs (fields_exchange msg) = Some ref"
    using ref by (cases ?ms) (simp_all add: findReference_lib_last)
  show ?thesis using ref f by (simp add: message_lib_def newMessage_def Let_def)
qed

text \<open>Of two matching bindings the second one's reference names the field.\<close>

theorem reference_of_last_matching_binding_witness:
  "routing (message_lib
     [\<lparr>exchange = ''ex'', routingKeyPattern = ''#'',
       routingKeyReference = Some [\<lparr>name = ''a'', multipleWords = False, constant' = None\<rparr>]\<rparr>,
      \<lparr>exchange = ''ex'', routingKeyPattern = ''#'',
       routingKeyReference = Some [\<lparr>name = ''b'', multipleWords = False, constant' = None\<rparr>]\<rparr>]
     \<lparr>content = ''{}'', fields_exchange = ''ex'', fields_routingKey = ''x'',
      fields_redelivered = False, headers_CC = None\<rparr> ()) =
   parseRoutingKey [\<lparr>name = ''b'', multipleWords = False, constant' = None\<rparr>] ''x''"
  using reference_of_last_matching_binding
    [of "\<lparr>content = ''{}'', fields_exchange = ''ex'', fields_routingKey = ''x'',
          fields_redelivered = False, headers_CC = None\<rparr>"
        "[\<lparr>exchange = ''ex'', routingKeyPattern = ''#'',
           routingKeyReference = Some [\<lparr>name = ''a'', multipleWords = False, constant' = None\<rparr>]\<rparr>,
          \<lparr>exchange = ''ex'', routingKeyPattern = ''#'',
           routingKeyReference = Some [\<lparr>name = ''b'', multipleWords = False, constant' = None\<rparr>]\<rparr>]"
        "()"]
  by simp

text \<open>
  Against C5 as stated (the first match): with two matching bindings both listeners
  take the reference of the second, and the routing key is parsed with it.
\<close>

theorem first_matching_binding_counterexample:
  "findReference_lib
     [\<lparr>exchange = ''ex'', routingKeyPattern = ''#'',
       routingKeyReference = Some [\<lparr>name = ''a'', multipleWords = False, constant' = None\<rparr>]\<rparr>,
      \<lparr>exchange = ''ex'', routingKeyPattern = ''#'',
       routingKeyReference = Some [\<lparr>name = ''b'', multipleWords = False, constant' = None\<rparr>]\<rparr>]
     ''ex'' = Some [\<lparr>name = ''b'', multipleWords = False, constant' = None\<rparr>] \<and>
   findReference_src
     [\<lparr>exchange = ''ex'', routingKeyPattern = ''#'',
       routingKeyReference = Some [\<lparr>name = ''a'', multipleWords = False, constant' = None\<rparr>]\<rparr>,
      \<lparr>exchange = ''ex'', routingKeyPattern = ''#'',
       routingKeyReference = Some [\<lparr>name = ''b'', multipleWords = False, constant' = None\<rparr>]\<rparr>]
     ''ex'' = Inr (RReference (Some [\<lparr>name = ''b'', multipleWords = False, constant' = None\<rparr>])) \<and>
   routing (message_lib
     [\<lparr>exchange = ''ex'', routingKeyPattern = ''#'',
       routingKeyReference = Some [\<lparr>name = ''a'', multipleWords = False, constant' = None\<rparr>]\<rparr>,
      \<lparr>exchange = ''ex'', routingKeyPattern = ''#'',
       routingKeyReference = Some [\<lparr>name = ''b'', multipleWords = False, constant' = None\<rparr>]\<rparr>]
     \<lparr>content = ''{}'', fields_exchange = ''ex'', fields_routingKey = ''x'',
      fields_redelivered = False, headers_CC = None\<rparr> ()) = Some [(''b'', Str ''x'')]"
  by code_simp

text \<open>
  C4, as the code has it. When the body of a delivery does not decode,
  \<^verbatim>\<open>JSON.parse\<close> throws in the first statement that uses it: \<^verbatim>\<open>_handle\<close> ends
  with the exception, no handler has run, nothing was emitted, and the channel has
  seen neither \<^verbatim>\<open>ack\<close> nor \<^verbatim>\<open>nack\<close>.
\<close>

theorem decode_failure_leaves_delivery_unsettled:
  assumes "JSON_parse (content msg) = None"
  shows "handle_lib JSON_parse handlers ack_ok nack_ok l msg ch u =
           \<lparr>thrown = Some SyntaxError, delivered = None, user = u, ops = [], emitted = []\<rparr> \<and>
         handle_src JSON_parse handlers ack_ok nack_ok l' msg u =
           \<lparr>thrown = Some SyntaxError, delivered = None, user = u, ops = [], emitted = []\<rparr>"
  using assms by (simp add: handle_lib_def handle_src_def)

theorem decode_failure_leaves_delivery_unsettled_witness:
  "handle_lib (\<lambda>s. if s = ''{}'' then Some () else None) [\<lambda>m u. ((Resolves, 0), m # u)] True True
     (PulseListener_lib ''ns'' ''slug''
        \<lparr>prefetch = 5, queueName_opt = None, maxLength = None, reconnect_opt = None,
         shared = False\<rparr>)
     \<lparr>content = ''{oops'', fields_exchange = ''ex'', fields_routingKey = ''x'',
      fields_redelivered = False, headers_CC = None\<rparr> 1 [] =
   \<lparr>thrown = Some SyntaxError, delivered = None, user = [], ops = [], emitted = []\<rparr>"
  using decode_failure_leaves_delivery_unsettled
    [of "\<lambda>s. if s = ''{}'' then Some () else None"
        "\<lparr>content = ''{oops'', fields_exchange = ''ex'', fields_routingKey = ''x'',
          fields_redelivered = False, headers_CC = None\<rparr>"
        "[\<lambda>m u. ((Resolves, 0), m # u)]" True True
        "PulseListener_lib ''ns'' ''slug''
           \<lparr>prefetch = 5, queueName_opt = None, maxLength = None, reconnect_opt = None,
            shared = False\<rparr>" 1 "[]"]
  by simp

text \<open>Against C4 as stated: a delivery that does not decode is neither acknowledged
  nor negatively acknowledged, by either listener.\<close>

theorem undecodable_delivery_settled_counterexample:
  "ops (handle_lib (\<lambda>s. if s = ''{}'' then Some () else None) [\<lambda>m u. ((Resolves, 0), m # u)] True True
     (PulseListener_lib ''ns'' ''slug''
        \<lparr>prefetch = 5, queueName_opt = None, maxLength = None, reconnect_opt = None,
         shared = False\<rparr>)
     \<lparr>content = ''{oops'', fields_exchange = ''ex'', fields_routingKey = ''x'',
      fields_redelivered = False, headers_CC = None\<rparr> 1 []) = [] \<and>
   ops (handle_src (\<lambda>s. if s = ''{}'' then Some () else None) [\<lambda>m u. ((Resolves, 0), m # u)] True True
     ((PulseListener_src ''ns''
        \<lparr>prefetch = 5, queueName_opt = None, maxLength = None, reconnect_opt = None,
         shared = False\<rparr>)\<lparr>channel_src := Some 1\<rparr>)
     \<lparr>content = ''{oops'', fields_exchange = ''ex'', fields_routingKey = ''x'',
      fields_redelivered = False, headers_CC = None\<rparr> []) = []"
  by (simp add: handle_lib_def handle_src_def)






text \<open>
  \<open>firstRejection\<close> is \<open>None\<close> exactly when no promise rejects; otherwise it is a
  rejection that occurs, and no rejection occurs at an earlier instant.
\<close>

lemma firstRejection_None_iff:
  "firstRejection outs = None \<longleftrightarrow> (\<forall>out \<in> set outs. fst out = Resolves \<or> fst out = Pending)"
  by (induction outs rule: firstRejection.induct) (auto split: option.splits)

lemma firstRejection_earliest:
  "firstRejection outs = Some (t, err) \<Longrightarrow>
   (Rejects err, t) \<in> set outs \<and> (\<forall>e t'. (Rejects e, t') \<in> set outs \<longrightarrow> t \<le> t')"
proof (induction outs arbitrary: t err rule: firstRejection.induct)
  case 1
  then show ?case by simp
next
  case (2 t0 xs)
  then show ?case by auto
next
  case (3 t0 xs)
  then show ?case by auto
next
  case (4 e0 t0 xs)
  show ?case
  proof (cases "firstRejection xs")
    case None
    then have "\<forall>out \<in> set xs. fst out = Resolves \<or> fst out = Pending"
      by (simp add: firstRejection_None_iff)
    then have "\<forall>e t'. (Rejects e, t') \<notin> set xs" by fastforce
    with None "4.prems" show ?thesis by auto
  next
    case (Some a)
    obtain t1 e1 where a: "a = (t1, e1)" by (cases a) auto
    from "4.IH" [of t1 e1] Some a
    have ih: "(Rejects e1, t1) \<in> set xs" "\<forall>e t'. (Rejects e, t') \<in> set xs \<longrightarrow> t1 \<le> t'"
      by auto
    show ?thesis
    proof (cases "t1 < t0")
      case True
      with Some a "4.prems" have "t = t1" "err = e1" by auto
      with ih True show ?thesis by auto
    next
      case False
      with Some a "4.prems" have "t = t0" "err = e0" by auto
      with ih False show ?thesis by fastforce
    qed
  qed
qed

text \<open>
  \<open>settlementOrder\<close> lists each handler whose promise settles once, by the instant
  at which it settles.
\<close>

lemma settlementOrder_set:
  "set (settlementOrder outs) = {i. i < length outs \<and> fst (outs ! i) \<noteq> Pending}"
  by (auto simp: settlementOrder_def)

lemma settlementOrder_distinct: "distinct (settlementOrder outs)"
  by (simp add: settlementOrder_def)

lemma settlementOrder_sorted: "sorted (map (\<lambda>i. snd (outs ! i)) (settlementOrder outs))"
  by (simp add: settlementOrder_def)




text \<open>The parse gives no routing exactly when the two walks stop at different
  indices, which is when the \<^verbatim>\<open>assert\<close> throws.\<close>

lemma parseRoutingKey_None_iff:
  "parseRoutingKey ref key = None \<longleftrightarrow>
     (case frontLoop ref 0 (js_split CHR ''.'' key) [] of
        (i, keys1, r1) \<Rightarrow>
          i < length ref \<and> fst (backLoop ref i (length ref - 1) keys1 r1) \<noteq> i)"
proof -
  obtain i keys1 r1 where f: "frontLoop ref 0 (js_split CHR ''.'' key) [] = (i, keys1, r1)"
    by (cases "frontLoop ref 0 (js_split CHR ''.'' key) []") auto
  obtain j keys2 r2 where b: "backLoop ref i (length ref - 1) keys1 r1 = (j, keys2, r2)"
    by (cases "backLoop ref i (length ref - 1) keys1 r1") auto
  show ?thesis using f b by (auto simp: parseRoutingKey_def)
qed

text \<open>
  C7. A reference with more than one multi-word field never parses: the walks stop
  at different fields, the \<^verbatim>\<open>assert\<close> throws and is caught, and \<^verbatim>\<open>routing\<close> stays
  unset. When such a reference is the one found for a delivery that decodes,
  \<^verbatim>\<open>_handle\<close> does not throw, and every handler is called with the message
  without \<^verbatim>\<open>routing\<close>.
\<close>

theorem several_multi_word_fields_omit_routing:
  assumes "1 < length (filter multipleWords ref)"
    and "JSON_parse (content msg) = Some p"
  shows "parseRoutingKey ref key = None \<and>
         routing (newMessage msg p) = None \<and>
         (findReference_lib (bindings l) (fields_exchange msg) = Some ref \<longrightarrow>
            (let r = handle_lib JSON_parse handlers ack_ok nack_ok l msg ch u
             in thrown r = None \<and> delivered r = Some (newMessage msg p) \<and>
                user r = snd (runHandlers handlers (newMessage msg p) u))) \<and>
         (findReference_src (bindings_src l') (fields_exchange msg) =
            Inr (RReference (Some ref)) \<longrightarrow>
            (let r = handle_src JSON_parse handlers ack_ok nack_ok l' msg u
             in thrown r = None \<and> delivered r = Some (newMessage msg p) \<and>
                user r = snd (runHandlers handlers (newMessage msg p) u)))"
proof (intro conjI impI)
  show "parseRoutingKey ref key = None" using assms(1) by (rule parse_two_multi)
  show "routing (newMessage msg p) = None" by (simp add: newMessage_def)
  have none: "parseRoutingKey ref (fields_routingKey msg) = None"
    using assms(1) by (rule parse_two_multi)
  {
    assume f: "findReference_lib (bindings l) (fields_exchange msg) = Some ref"
    have m: "message_lib (bindings l) msg p = newMessage msg p"
      using f none by (simp add: message_lib_def newMessage_def Let_def)
    show "let r = handle_lib JSON_parse handlers ack_ok nack_ok l msg ch u
          in thrown r = None \<and> delivered r = Some (newMessage msg p) \<and>
             user r = snd (runHandlers handlers (newMessage msg p) u)"
    proof -
      obtain oks u1 where rh: "runHandlers handlers (newMessage msg p) u = (oks, u1)"
        by (cases "runHandlers handlers (newMessage msg p) u") auto
      show ?thesis using assms(2) m rh by (simp add: handle_lib_def Let_def)
    qed
  }
  {
    assume f: "findReference_src (bindings_src l') (fields_exchange msg) =
                 Inr (RReference (Some ref))"
    have m: "message_src (bindings_src l') msg p = Inr (newMessage msg p)"
      using f none by (simp add: message_src_def newMessage_def Let_def)
    show "let r = handle_src JSON_parse handlers ack_ok nack_ok l' msg u
          in thrown r = None \<and> delivered r = Some (newMessage msg p) \<and>
             user r = snd (runHandlers handlers (newMessage msg p) u)"
    proof -
      obtain oks u1 where rh: "runHandlers handlers (newMessage msg p) u = (oks, u1)"
        by (cases "runHandlers handlers (newMessage msg p) u") auto
      show ?thesis using assms(2) m rh by (simp add: handle_src_def Let_def)
    qed
  }
qed

theorem several_multi_word_fields_omit_routing_witness:
  "delivered (handle_lib Some [\<lambda>m u. ((Resolves, 0), m # u)] True True
     ((PulseListener_lib ''ns'' ''slug''
        \<lparr>prefetch = 5, queueName_opt = None, maxLength = None, reconnect_opt = None,
         shared = False\<rparr>)
      \<lparr>bindings := [\<lparr>exchange = ''ex'', routingKeyPattern = ''#'',
                      routingKeyReference =
                        Some [\<lparr>name = ''first'', multipleWords = True, constant' = None\<rparr>,
                              \<lparr>name = ''testId'', multipleWords = False, constant' = None\<rparr>,
                              \<lparr>name = ''rest'', multipleWords = True, constant' = None\<rparr>]\<rparr>]\<rparr>)
     \<lparr>content = ''{}'', fields_exchange = ''ex'', fields_routingKey = ''a.b.c.d'',
      fields_redelivered = False, headers_CC = None\<rparr> 1 []) =
   Some \<lparr>payload = ''{}'', message_exchange = ''ex'', routingKey = ''a.b.c.d'',
         redelivered = False, routes = [], routing = None\<rparr> \<and>
   user (handle_lib Some [\<lambda>m u. ((Resolves, 0), m # u)] True True
     ((PulseListener_lib ''ns'' ''slug''
        \<lparr>prefetch = 5, queueName_opt = None, maxLength = None, reconnect_opt = None,
         shared = False\<rparr>)
      \<lparr>bindings := [\<lparr>exchange = ''ex'', routingKeyPattern = ''#'',
                      routingKeyReference =
                        Some [\<lparr>name = ''first'', multipleWords = True, constant' = None\<rparr>,
                              \<lparr>name = ''testId'', multipleWords = False, constant' = None\<rparr>,
                              \<lparr>name = ''rest'', multipleWords = True, constant' = None\<rparr>]\<rparr>]\<rparr>)
     \<lparr>content = ''{}'', fields_exchange = ''ex'', fields_routingKey = ''a.b.c.d'',
      fields_redelivered = False, headers_CC = None\<rparr> 1 []) =
   [\<lparr>payload = ''{}'', message_exchange = ''ex'', routingKey = ''a.b.c.d'',
     redelivered = False, routes = [], routing = None\<rparr>]"
proof -
  let ?ref = "[\<lparr>name = ''first'', multipleWords = True, constant' = None\<rparr>,
               \<lparr>name = ''testId'', multipleWords = False, constant' = None\<rparr>,
               \<lparr>name = ''rest'', multipleWords = True, constant' = None\<rparr>]"
  let ?l = "(PulseListener_lib ''ns'' ''slug''
        \<lparr>prefetch = 5, queueName_opt = None, maxLength = None, reconnect_opt = None,
         shared = False\<rparr>)
      \<lparr>bindings := [\<lparr>exchange = ''ex'', routingKeyPattern = ''#'',
                      routingKeyReference = Some ?ref\<rparr>]\<rparr>"
  let ?msg = "\<lparr>content = ''{}'', fields_exchange = ''ex'', fields_routingKey = ''a.b.c.d'',
      fields_redelivered = False, headers_CC = None\<rparr>"
  let ?hs = "[\<lambda>(m :: string message) (u :: string message list). ((Resolves, 0), m # u)]"
  have h1: "1 < length (filter multipleWords ?ref)" by simp
  have h2: "Some (content ?msg) = Some ''{}''" by simp
  have f: "findReference_lib (bindings ?l) (fields_exchange ?msg) = Some ?ref"
    by (simp add: findReference_lib_def)
  have nm: "newMessage ?msg ''{}'' =
      \<lparr>payload = ''{}'', message_exchange = ''ex'', routingKey = ''a.b.c.d'',
       redelivered = False, routes = [], routing = None\<rparr>"
    by (simp add: newMessage_def ccRoutes_def)
  from several_multi_word_fields_omit_routing
         [of ?ref Some ?msg "''{}''" "''a.b.c.d''" ?l ?hs True True 1 "[]", OF h1 h2]
  have "findReference_lib (bindings ?l) (fields_exchange ?msg) = Some ?ref \<longrightarrow>
        (let r = handle_lib Some ?hs True True ?l ?msg 1 []
         in thrown r = None \<and> delivered r = Some (newMessage ?msg ''{}'') \<and>
            user r = snd (runHandlers ?hs (newMessage ?msg ''{}'') []))"
    by (rule conjunct2 [THEN conjunct2, THEN conjunct1])
  with f have "delivered (handle_lib Some ?hs True True ?l ?msg 1 []) =
                 Some (newMessage ?msg ''{}'') \<and>
               user (handle_lib Some ?hs True True ?l ?msg 1 []) =
                 snd (runHandlers ?hs (newMessage ?msg ''{}'') [])"
    unfolding Let_def by blast
  then show ?thesis by (simp add: nm)
qed

section \<open>Building a pattern and parsing it back\<close>

lemma js_split_no_separator: "c \<notin> set s \<Longrightarrow> js_split c s = [s]"
  by (induction s) auto

lemma js_split_append:
  "c \<notin> set s \<Longrightarrow> js_split c (s @ c # t) = s # js_split c t"
  by (induction s) auto

lemma js_split_join:
  "segs \<noteq> [] \<Longrightarrow> \<forall>s\<in>set segs. c \<notin> set s \<Longrightarrow> js_split c (js_join [c] segs) = segs"
proof (induction segs)
  case Nil
  then show ?case by simp
next
  case (Cons s segs)
  show ?case
  proof (cases segs)
    case Nil
    with Cons.prems show ?thesis by (simp add: js_split_no_separator)
  next
    case (Cons t ts)
    with Cons.IH Cons.prems have "js_split c (js_join [c] (t # ts)) = t # ts" by simp
    with Cons Cons.prems show ?thesis by (simp add: js_split_append)
  qed
qed

lemma mapE_all_Inr:
  "\<forall>x\<in>set xs. g x = Inr (h x) \<Longrightarrow> mapE g xs = Inr (map h xs)"
  by (induction xs) auto

lemma zip_map_same: "zip xs (map h xs) = map (\<lambda>x. (x, h x)) xs"
  by (induction xs) auto

lemma frontLoop_no_multi:
  "n = length ref - i \<Longrightarrow> i \<le> length ref \<Longrightarrow> length keys = n \<Longrightarrow>
   \<forall>f\<in>set ref. \<not> multipleWords f \<Longrightarrow>
   frontLoop ref i keys r =
     (length ref, [],
      foldl (\<lambda>m p. setProperty (name (fst p)) (Str (snd p)) m) r (zip (drop i ref) keys))"
proof (induction n arbitrary: i keys r)
  case 0
  then have "i = length ref" "keys = []" by simp_all
  then show ?case by (simp add: frontLoop.simps [of ref "length ref"])
next
  case (Suc n)
  from Suc.prems have il: "i < length ref" by simp
  from Suc.prems obtain k ks where keys: "keys = k # ks" by (cases keys) auto
  from il Suc.prems have nm: "\<not> multipleWords (ref ! i)" by simp
  have d: "drop i ref = ref ! i # drop (Suc i) ref"
    using il by (simp add: Cons_nth_drop_Suc)
  have step: "frontLoop ref i keys r =
      frontLoop ref (Suc i) ks (setProperty (name (ref ! i)) (Str k) r)"
    using il nm by (simp add: frontLoop.simps [of ref i] keys shift_def)
  have "frontLoop ref (Suc i) ks (setProperty (name (ref ! i)) (Str k) r) =
     (length ref, [],
      foldl (\<lambda>m p. setProperty (name (fst p)) (Str (snd p)) m)
        (setProperty (name (ref ! i)) (Str k) r) (zip (drop (Suc i) ref) ks))"
    by (rule Suc.IH) (use Suc.prems il keys in auto)
  with step show ?case by (simp add: d keys)
qed

text \<open>What a sequence of assignments leaves under a name.\<close>

lemma map_of_setProperty:
  "map_of (setProperty k v m) n =
     (if k = ''__proto__'' then map_of m n else if k = n then Some v else map_of m n)"
  by (simp add: setProperty_def update_conv')

lemma map_of_foldl_proto:
  "map_of (foldl (\<lambda>m p. setProperty (name (fst p)) (Str (snd p)) m) r ps) ''__proto__'' =
     map_of r ''__proto__''"
  by (induction ps rule: rev_induct) (simp_all add: map_of_setProperty)

lemma map_of_foldl_setProperty:
  assumes "n \<noteq> ''__proto__''"
  shows "map_of (foldl (\<lambda>m p. setProperty (name (fst p)) (Str (snd p)) m) r ps) n =
     (if filter (\<lambda>p. name (fst p) = n) ps = [] then map_of r n
      else Some (Str (snd (last (filter (\<lambda>p. name (fst p) = n) ps)))))"
proof (induction ps rule: rev_induct)
  case Nil
  show ?case by simp
next
  case (snoc p ps)
  show ?case
  proof (cases "name (fst p) = n")
    case True
    with assms show ?thesis by (simp add: map_of_setProperty)
  next
    case False
    with assms show ?thesis by (simp add: map_of_setProperty snoc.IH)
  qed
qed

lemma keyValue_truthy:
  "keyValue vals key =
     (if truthy (constant' key) then JString (the (constant' key))
      else getProperty vals (name key))"
  by (simp add: keyValue_def truthy_def split: option.splits list.splits)

lemma mapE_Inr_member:
  "mapE f xs = Inr ys \<Longrightarrow> x \<in> set xs \<Longrightarrow> \<exists>y. f x = Inr y"
  by (induction xs arbitrary: ys) (auto split: sum.splits)

text \<open>
  C6, with what it needs. Take a reference with no multi-word field and give every
  field without constant a string free of dots. (A constant counts when it is
  truthy, as \<^verbatim>\<open>key.constant ||\<close> reads it.) Then \<^verbatim>\<open>_topic\<close> returns a pattern whose
  parse by the listener sets \<^verbatim>\<open>routing\<close> with, for every field without constant,
  exactly the value given for it, if and only if: every constant is free of dots;
  no field without constant is named \<^verbatim>\<open>__proto__\<close>; and wherever the last field that
  bears the name of a field without constant is a constant field, its constant is
  the value given for that name.
\<close>

theorem topic_then_parse_round_trip:
  assumes nomulti: "\<forall>f\<in>set (entry_routingKey e). \<not> multipleWords f"
    and given: "\<forall>f\<in>set (entry_routingKey e).
                  \<not> truthy (constant' f) \<longrightarrow>
                  (\<exists>v. vals (name f) = Some (JString v) \<and> CHR ''.'' \<notin> set v)"
  shows "(\<exists>b r. topic exchangePrefix e (PatternObject vals) = Inr b \<and>
               parseRoutingKey (entry_routingKey e) (routingKeyPattern b) = Some r \<and>
               (\<forall>f\<in>set (entry_routingKey e). \<not> truthy (constant' f) \<longrightarrow>
                  (\<forall>v. vals (name f) = Some (JString v) \<longrightarrow>
                       map_of r (name f) = Some (Str v)))) \<longleftrightarrow>
         ((\<forall>f\<in>set (entry_routingKey e).
              truthy (constant' f) \<longrightarrow> CHR ''.'' \<notin> set (the (constant' f))) \<and>
          (\<forall>f\<in>set (entry_routingKey e).
              \<not> truthy (constant' f) \<longrightarrow>
              name f \<noteq> ''__proto__'' \<and>
              (let g = last (filter (\<lambda>g. name g = name f) (entry_routingKey e))
               in truthy (constant' g) \<longrightarrow>
                  vals (name f) = Some (JString (the (constant' g))))))"
    (is "?roundtrip \<longleftrightarrow> ?constants \<and> ?names")
proof -
  let ?ref = "entry_routingKey e"
  define seg :: "FieldSpec \<Rightarrow> string" where "seg f = (if truthy (constant' f) then the (constant' f)
                             else (case vals (name f) of Some (JString v) \<Rightarrow> v | _ \<Rightarrow> []))" for f
  let ?pattern = "js_join ''.'' (map seg ?ref)"
  let ?b = "\<lparr>exchange = exchangePrefix @ entry_exchange e, routingKeyPattern = ?pattern,
            routingKeyReference = Some ?ref\<rparr>"
  let ?r = "foldl (\<lambda>m p. setProperty (name (fst p)) (Str (snd p)) m) []
              (zip ?ref (map seg ?ref))"
  have built: "topic exchangePrefix e (PatternObject vals) = Inr ?b \<and>
               parseRoutingKey ?ref ?pattern = Some ?r" if constants: ?constants
  proof -
    have segs: "topicSegment vals f = Inr (seg f) \<and> CHR ''.'' \<notin> set (seg f)"
      if "f \<in> set ?ref" for f
    proof (cases "truthy (constant' f)")
      case True
      with constants that show ?thesis
        by (simp add: topicSegment_def keyValue_truthy seg_def)
    next
      case False
      with given that obtain v where "vals (name f) = Some (JString v)" "CHR ''.'' \<notin> set v"
        by blast
      with False show ?thesis
        by (simp add: topicSegment_def keyValue_truthy getProperty_def seg_def)
    qed
    then have m: "mapE (topicSegment vals) ?ref = Inr (map seg ?ref)"
      by (intro mapE_all_Inr) simp
    have t: "topic exchangePrefix e (PatternObject vals) = Inr ?b"
      by (simp add: topic_def m)
    have p: "parseRoutingKey ?ref ?pattern = Some ?r"
    proof (cases "?ref = []")
      case True
      then show ?thesis
        by (simp add: parseRoutingKey_def frontLoop.simps [of "[]"])
    next
      case False
      then have "map seg ?ref \<noteq> []" by simp
      moreover have "\<forall>s\<in>set (map seg ?ref). CHR ''.'' \<notin> set s" using segs by auto
      ultimately have sp: "js_split CHR ''.'' ?pattern = map seg ?ref"
        by (rule js_split_join)
      have "frontLoop ?ref 0 (map seg ?ref) [] =
          (length ?ref, [],
           foldl (\<lambda>m p. setProperty (name (fst p)) (Str (snd p)) m) []
             (zip (drop 0 ?ref) (map seg ?ref)))"
        by (rule frontLoop_no_multi [where n = "length ?ref"]) (use nomulti in simp_all)
      then show ?thesis by (simp add: parseRoutingKey_def sp)
    qed
    from t p show ?thesis by simp
  qed
  have parsed: "map_of ?r (name f) = Some (Str v) \<longleftrightarrow>
          name f \<noteq> ''__proto__'' \<and>
          (let g = last (filter (\<lambda>g. name g = name f) ?ref)
           in truthy (constant' g) \<longrightarrow> vals (name f) = Some (JString (the (constant' g))))"
    if f: "f \<in> set ?ref" and v: "vals (name f) = Some (JString v)" for f v
  proof -
    let ?gs = "filter (\<lambda>g. name g = name f) ?ref"
    from f have ne: "?gs \<noteq> []" by (auto simp: filter_empty_conv)
    then have "last ?gs \<in> set ?gs" by (rule last_in_set)
    then have ng: "name (last ?gs) = name f" by simp
    have fl: "filter (\<lambda>p. name (fst p) = name f) (zip ?ref (map seg ?ref)) =
          map (\<lambda>g. (g, seg g)) ?gs"
      by (simp add: zip_map_same filter_map comp_def)
    have "map_of ?r (name f) =
            (if name f = ''__proto__'' then None else Some (Str (seg (last ?gs))))"
    proof (cases "name f = ''__proto__''")
      case True
      then show ?thesis by (simp add: map_of_foldl_proto)
    next
      case False
      then show ?thesis using ne by (simp add: map_of_foldl_setProperty fl last_map)
    qed
    moreover have "seg (last ?gs) = v \<longleftrightarrow>
           (truthy (constant' (last ?gs)) \<longrightarrow>
            vals (name f) = Some (JString (the (constant' (last ?gs)))))"
      using ng v by (auto simp: seg_def)
    ultimately show ?thesis by (simp add: Let_def)
  qed
  show ?thesis
  proof
    assume rt: ?roundtrip
    then obtain b r where b: "topic exchangePrefix e (PatternObject vals) = Inr b"
      and r: "parseRoutingKey ?ref (routingKeyPattern b) = Some r"
      and vs: "\<forall>f\<in>set ?ref. \<not> truthy (constant' f) \<longrightarrow>
                  (\<forall>v. vals (name f) = Some (JString v) \<longrightarrow> map_of r (name f) = Some (Str v))"
      by blast
    from b obtain segs where m: "mapE (topicSegment vals) ?ref = Inr segs"
      by (auto simp: topic_def split: sum.splits)
    have constants: ?constants
    proof (intro ballI impI)
      fix f assume f: "f \<in> set ?ref" "truthy (constant' f)"
      from mapE_Inr_member [OF m f(1)] obtain y where "topicSegment vals f = Inr y" by blast
      with f nomulti show "CHR ''.'' \<notin> set (the (constant' f))"
        by (auto simp: topicSegment_def keyValue_truthy split: if_splits)
    qed
    from built [OF constants] b r have rr: "r = ?r" by auto
    have ?names
    proof (intro ballI impI)
      fix f assume f: "f \<in> set ?ref" "\<not> truthy (constant' f)"
      with given obtain v where v: "vals (name f) = Some (JString v)" by blast
      with vs f rr have "map_of ?r (name f) = Some (Str v)" by blast
      with parsed [OF f(1) v]
      show "name f \<noteq> ''__proto__'' \<and>
            (let g = last (filter (\<lambda>g. name g = name f) ?ref)
             in truthy (constant' g) \<longrightarrow> vals (name f) = Some (JString (the (constant' g))))"
        by blast
    qed
    with constants show "?constants \<and> ?names" by blast
  next
    assume c: "?constants \<and> ?names"
    then have constants: ?constants and names: ?names by blast+
    have "map_of ?r (name f) = Some (Str v)"
      if "f \<in> set ?ref" "\<not> truthy (constant' f)" "vals (name f) = Some (JString v)" for f v
      using parsed [OF that(1) that(3)] names that by blast
    with built [OF constants] show ?roundtrip
      by (intro exI [of _ ?b] exI [of _ ?r]) simp
  qed
qed

text \<open>
  A constant field followed by a field of the same name without constant, and a
  third field: the pattern is built and parsed back to the values given.
\<close>

theorem topic_then_parse_round_trip_witness:
  "\<exists>r. topic ''exchange/''
         \<lparr>entry_exchange = ''test-exchange'',
          entry_routingKey =
            [\<lparr>name = ''a'', multipleWords = False, constant' = Some ''my-constant''\<rparr>,
             \<lparr>name = ''a'', multipleWords = False, constant' = None\<rparr>,
             \<lparr>name = ''testId'', multipleWords = False, constant' = None\<rparr>]\<rparr>
         (PatternObject [''a'' \<mapsto> JString ''v'', ''testId'' \<mapsto> JString ''test'']) =
       Inr \<lparr>exchange = ''exchange/test-exchange'',
            routingKeyPattern = ''my-constant.v.test'',
            routingKeyReference =
              Some [\<lparr>name = ''a'', multipleWords = False, constant' = Some ''my-constant''\<rparr>,
                    \<lparr>name = ''a'', multipleWords = False, constant' = None\<rparr>,
                    \<lparr>name = ''testId'', multipleWords = False, constant' = None\<rparr>]\<rparr> \<and>
       parseRoutingKey
         [\<lparr>name = ''a'', multipleWords = False, constant' = Some ''my-constant''\<rparr>,
          \<lparr>name = ''a'', multipleWords = False, constant' = None\<rparr>,
          \<lparr>name = ''testId'', multipleWords = False, constant' = None\<rparr>]
         ''my-constant.v.test'' = Some r \<and>
       map_of r ''a'' = Some (Str ''v'') \<and> map_of r ''testId'' = Some (Str ''test'')"
proof -
  let ?ref = "[\<lparr>name = ''a'', multipleWords = False, constant' = Some ''my-constant''\<rparr>,
               \<lparr>name = ''a'', multipleWords = False, constant' = None\<rparr>,
               \<lparr>name = ''testId'', multipleWords = False, constant' = None\<rparr>]"
  let ?e = "\<lparr>entry_exchange = ''test-exchange'', entry_routingKey = ?ref\<rparr>"
  let ?vals = "[''a'' \<mapsto> JString ''v'', ''testId'' \<mapsto> JString ''test'']"
  have h1: "\<forall>f\<in>set (entry_routingKey ?e). \<not> multipleWords f" by simp
  have h2: "\<forall>f\<in>set (entry_routingKey ?e).
              \<not> truthy (constant' f) \<longrightarrow>
              (\<exists>v. ?vals (name f) = Some (JString v) \<and> CHR ''.'' \<notin> set v)"
    by (simp add: truthy_def)
  have rhs: "(\<forall>f\<in>set (entry_routingKey ?e).
              truthy (constant' f) \<longrightarrow> CHR ''.'' \<notin> set (the (constant' f))) \<and>
          (\<forall>f\<in>set (entry_routingKey ?e).
              \<not> truthy (constant' f) \<longrightarrow>
              name f \<noteq> ''__proto__'' \<and>
              (let g = last (filter (\<lambda>g. name g = name f) (entry_routingKey ?e))
               in truthy (constant' g) \<longrightarrow>
                  ?vals (name f) = Some (JString (the (constant' g)))))"
    by (simp add: truthy_def)
  have t: "topic ''exchange/'' ?e (PatternObject ?vals) =
             Inr \<lparr>exchange = ''exchange/test-exchange'',
                  routingKeyPattern = ''my-constant.v.test'',
                  routingKeyReference = Some ?ref\<rparr>"
    by (simp add: topic_def topicSegment_def keyValue_def getProperty_def)
  from topic_then_parse_round_trip [of ?e ?vals "''exchange/''", OF h1 h2] rhs
  obtain b r where br: "topic ''exchange/'' ?e (PatternObject ?vals) = Inr b"
      "parseRoutingKey (entry_routingKey ?e) (routingKeyPattern b) = Some r"
      "\<forall>f\<in>set (entry_routingKey ?e). \<not> truthy (constant' f) \<longrightarrow>
         (\<forall>v. ?vals (name f) = Some (JString v) \<longrightarrow> map_of r (name f) = Some (Str v))"
    by blast
  from br(1) t have "b = \<lparr>exchange = ''exchange/test-exchange'',
      routingKeyPattern = ''my-constant.v.test'', routingKeyReference = Some ?ref\<rparr>"
    by (simp only: sum.inject)
  then have "routingKeyPattern b = ''my-constant.v.test''" by simp
  with br(2) have "parseRoutingKey ?ref ''my-constant.v.test'' = Some r" by simp
  moreover from br(3) have "map_of r ''a'' = Some (Str ''v'') \<and>
      map_of r ''testId'' = Some (Str ''test'')"
    by (simp add: truthy_def)
  ultimately show ?thesis using t by blast
qed

text \<open>
  Against C6 as stated (every reference with no multi-word field): when a constant
  field comes after a field of the same name, its constant overwrites the value
  parsed for that name; a constant with a dot makes \<^verbatim>\<open>_topic\<close> throw, so there is
  no pattern to parse; and the value parsed for a field named \<^verbatim>\<open>__proto__\<close> is not
  kept.
\<close>

theorem round_trip_counterexample:
  "topic ''exchange/''
     \<lparr>entry_exchange = ''e'',
      entry_routingKey = [\<lparr>name = ''a'', multipleWords = False, constant' = None\<rparr>,
                          \<lparr>name = ''a'', multipleWords = False, constant' = Some ''c''\<rparr>]\<rparr>
     (PatternObject [''a'' \<mapsto> JString ''v'']) =
   Inr \<lparr>exchange = ''exchange/e'', routingKeyPattern = ''v.c'',
        routingKeyReference = Some [\<lparr>name = ''a'', multipleWords = False, constant' = None\<rparr>,
                                    \<lparr>name = ''a'', multipleWords = False, constant' = Some ''c''\<rparr>]\<rparr> \<and>
   parseRoutingKey [\<lparr>name = ''a'', multipleWords = False, constant' = None\<rparr>,
                    \<lparr>name = ''a'', multipleWords = False, constant' = Some ''c''\<rparr>] ''v.c'' =
   Some [(''a'', Str ''c'')] \<and>
   topic ''exchange/''
     \<lparr>entry_exchange = ''e'',
      entry_routingKey = [\<lparr>name = ''k'', multipleWords = False, constant' = Some ''a.b''\<rparr>,
                          \<lparr>name = ''x'', multipleWords = False, constant' = None\<rparr>]\<rparr>
     (PatternObject [''x'' \<mapsto> JString ''v'']) = Inl AssertionError \<and>
   topic ''exchange/''
     \<lparr>entry_exchange = ''e'',
      entry_routingKey = [\<lparr>name = ''__proto__'', multipleWords = False, constant' = None\<rparr>,
                          \<lparr>name = ''b'', multipleWords = False, constant' = None\<rparr>]\<rparr>
     (PatternObject [''__proto__'' \<mapsto> JString ''v'', ''b'' \<mapsto> JString ''w'']) =
   Inr \<lparr>exchange = ''exchange/e'', routingKeyPattern = ''v.w'',
        routingKeyReference =
          Some [\<lparr>name = ''__proto__'', multipleWords = False, constant' = None\<rparr>,
                \<lparr>name = ''b'', multipleWords = False, constant' = None\<rparr>]\<rparr> \<and>
   parseRoutingKey [\<lparr>name = ''__proto__'', multipleWords = False, constant' = None\<rparr>,
                    \<lparr>name = ''b'', multipleWords = False, constant' = None\<rparr>] ''v.w'' =
   Some [(''b'', Str ''w'')]"
proof (intro conjI)
  show "topic ''exchange/''
     \<lparr>entry_exchange = ''e'',
      entry_routingKey = [\<lparr>name = ''a'', multipleWords = False, constant' = None\<rparr>,
                          \<lparr>name = ''a'', multipleWords = False, constant' = Some ''c''\<rparr>]\<rparr>
     (PatternObject [''a'' \<mapsto> JString ''v'']) =
   Inr \<lparr>exchange = ''exchange/e'', routingKeyPattern = ''v.c'',
        routingKeyReference = Some [\<lparr>name = ''a'', multipleWords = False, constant' = None\<rparr>,
                                    \<lparr>name = ''a'', multipleWords = False, constant' = Some ''c''\<rparr>]\<rparr>"
    by (simp add: topic_def topicSegment_def keyValue_def getProperty_def)
  show "parseRoutingKey [\<lparr>name = ''a'', multipleWords = False, constant' = None\<rparr>,
                    \<lparr>name = ''a'', multipleWords = False, constant' = Some ''c''\<rparr>] ''v.c'' =
   Some [(''a'', Str ''c'')]"
    by code_simp
  show "topic ''exchange/''
     \<lparr>entry_exchange = ''e'',
      entry_routingKey = [\<lparr>name = ''k'', multipleWords = False, constant' = Some ''a.b''\<rparr>,
                          \<lparr>name = ''x'', multipleWords = False, constant' = None\<rparr>]\<rparr>
     (PatternObject [''x'' \<mapsto> JString ''v'']) = Inl AssertionError"
    by (simp add: topic_def topicSegment_def keyValue_def getProperty_def)
  show "topic ''exchange/''
     \<lparr>entry_exchange = ''e'',
      entry_routingKey = [\<lparr>name = ''__proto__'', multipleWords = False, constant' = None\<rparr>,
                          \<lparr>name = ''b'', multipleWords = False, constant' = None\<rparr>]\<rparr>
     (PatternObject [''__proto__'' \<mapsto> JString ''v'', ''b'' \<mapsto> JString ''w'']) =
   Inr \<lparr>exchange = ''exchange/e'', routingKeyPattern = ''v.w'',
        routingKeyReference =
          Some [\<lparr>name = ''__proto__'', multipleWords = False, constant' = None\<rparr>,
                \<lparr>name = ''b'', multipleWords = False, constant' = None\<rparr>]\<rparr>"
    by (simp add: topic_def topicSegment_def keyValue_def getProperty_def)
  show "parseRoutingKey [\<lparr>name = ''__proto__'', multipleWords = False, constant' = None\<rparr>,
                    \<lparr>name = ''b'', multipleWords = False, constant' = None\<rparr>] ''v.w'' =
   Some [(''b'', Str ''w'')]"
    by code_simp
qed

section \<open>Properties of a listener over its lifetime\<close>

text \<open>No method and no event handler of the older listener assigns to
  \<^verbatim>\<open>_queueName\<close>, and only \<^verbatim>\<open>bind\<close> changes \<^verbatim>\<open>_bindings\<close>, by appending.\<close>

lemma connect_lib_queueName: "queueName (fst (snd (connect_lib rep l))) = queueName l"
  by (simp add: connect_lib_def Let_def split: option.splits)

lemma connect_lib_bindings: "bindings (fst (snd (connect_lib rep l))) = bindings l"
  by (simp add: connect_lib_def Let_def split: option.splits)

lemma resume_lib_state:
  "queueName (fst (snd (resume_lib rep tag l))) = queueName l \<and>
   bindings (fst (snd (resume_lib rep tag l))) = bindings l"
proof -
  obtain r l1 os where c: "connect_lib rep l = (r, l1, os)"
    by (cases "connect_lib rep l") auto
  with connect_lib_queueName [of rep l] connect_lib_bindings [of rep l]
  have "queueName l1 = queueName l" "bindings l1 = bindings l" by simp_all
  with c show ?thesis
    by (cases r; cases tag) (simp_all add: resume_lib_def)
qed

lemma pause_lib_state:
  "queueName (fst (pause_lib l)) = queueName l \<and> bindings (fst (pause_lib l)) = bindings l"
  by (simp add: pause_lib_def)

lemma close_lib_state:
  "queueName (fst (close_lib l)) = queueName l \<and> bindings (fst (close_lib l)) = bindings l"
  by (simp add: close_lib_def split: option.splits)

lemma deleteQueue_lib_state:
  "queueName (fst (snd (deleteQueue_lib rep ok l))) = queueName l \<and>
   bindings (fst (snd (deleteQueue_lib rep ok l))) = bindings l"
proof -
  obtain r l1 os where c: "connect_lib rep l = (r, l1, os)"
    by (cases "connect_lib rep l") auto
  with connect_lib_queueName [of rep l] connect_lib_bindings [of rep l]
  have l1: "queueName l1 = queueName l" "bindings l1 = bindings l" by simp_all
  obtain l2 os2 where cl: "close_lib l1 = (l2, os2)" by (cases "close_lib l1") auto
  with close_lib_state [of l1] l1 have "queueName l2 = queueName l" "bindings l2 = bindings l"
    by simp_all
  with c cl l1 show ?thesis
    by (cases r) (simp_all add: deleteQueue_lib_def)
qed

lemma onReconnect_lib_state:
  "queueName (fst (onReconnect_lib rep tag l)) = queueName l \<and>
   bindings (fst (onReconnect_lib rep tag l)) = bindings l"
proof (cases "reconnects l")
  case False
  then show ?thesis by (simp add: onReconnect_lib_def)
next
  case True
  show ?thesis
  proof (cases "channel l")
    case None
    with True show ?thesis by (simp add: onReconnect_lib_def)
  next
    case (Some ch)
    let ?l1 = "l\<lparr>invalidated := ch # invalidated l, channel := None, consumerTag := None\<rparr>"
    obtain r l2 os where c: "connect_lib rep ?l1 = (r, l2, os)"
      by (cases "connect_lib rep ?l1") auto
    with connect_lib_queueName [of rep ?l1] connect_lib_bindings [of rep ?l1]
    have c2: "queueName l2 = queueName l" "bindings l2 = bindings l" by simp_all
    obtain r' l3 os' where rs: "resume_lib rep tag ?l1 = (r', l3, os')"
      by (cases "resume_lib rep tag ?l1") auto
    with resume_lib_state [of rep tag ?l1]
    have r3: "queueName l3 = queueName l" "bindings l3 = bindings l" by simp_all
    from True Some c c2 rs r3 show ?thesis
      by (cases r; cases r') (simp_all add: onReconnect_lib_def Let_def)
  qed
qed

lemma bind_lib_state:
  "queueName (fst (snd (bind_lib ok b l))) = queueName l \<and>
   bindings (fst (snd (bind_lib ok b l))) = bindings l @ [b]"
  by (simp add: bind_lib_def Let_def split: option.splits)

lemma step_lib_queueName: "queueName (step_lib a l) = queueName l"
  by (cases a)
     (simp_all add: bind_lib_state connect_lib_queueName resume_lib_state pause_lib_state
        close_lib_state deleteQueue_lib_state onReconnect_lib_state onChannelError_lib_def)

lemma step_lib_bindings: "b \<in> set (bindings l) \<Longrightarrow> b \<in> set (bindings (step_lib a l))"
  by (cases a)
     (simp_all add: bind_lib_state connect_lib_bindings resume_lib_state pause_lib_state
        close_lib_state deleteQueue_lib_state onReconnect_lib_state onChannelError_lib_def)

lemma run_lib_queueName: "queueName (run_lib acts l) = queueName l"
  unfolding run_lib_def by (induction acts arbitrary: l) (simp_all add: step_lib_queueName)

lemma run_lib_bindings: "b \<in> set (bindings l) \<Longrightarrow> b \<in> set (bindings (run_lib acts l))"
  unfolding run_lib_def by (induction acts arbitrary: l) (simp_all add: step_lib_bindings)

lemma connect_lib_binds_all:
  "channel l = None \<Longrightarrow> connection_ok rep \<Longrightarrow> channel_given rep \<noteq> None \<Longrightarrow>
   prefetch_ok rep \<Longrightarrow> assertQueue_ok rep \<Longrightarrow>
   \<exists>pre. snd (snd (connect_lib rep l)) = pre @ bindAll (queueName l) (bindings l)"
  by (auto simp: connect_lib_def Let_def split: option.splits)

lemma bindAll_member:
  "b \<in> set bs \<Longrightarrow> BindQueue q (exchange b) (routingKeyPattern b) \<in> set (bindAll q bs)"
  by (auto simp: bindAll_def)

lemma connect_src_bindings: "bindings_src (fst (snd (connect_src slug rep l))) = bindings_src l"
  by (simp add: connect_src_def Let_def split: option.splits)

lemma connect_src_queueName:
  "queueName_src (fst (snd (connect_src slug rep l))) =
     (if channel_src l = None \<and> connection_ok rep \<and> channel_given rep \<noteq> None
      then Some (''queue/'' @ ns_src l @ ''/'' @
                 orElse (queueName_opt (opts_src l)) ''exclusive'' @ ''/'' @ slug)
      else queueName_src l)"
  by (auto simp: connect_src_def Let_def split: option.splits)

lemma resume_src_bindings:
  "bindings_src (fst (snd (resume_src slug rep tag l))) = bindings_src l"
proof -
  obtain r l1 os where c: "connect_src slug rep l = (r, l1, os)"
    by (cases "connect_src slug rep l") auto
  with connect_src_bindings [of slug rep l] have "bindings_src l1 = bindings_src l" by simp
  with c show ?thesis by (cases r; cases tag) (simp_all add: resume_src_def)
qed

lemma close_src_bindings: "bindings_src (fst (close_src l)) = bindings_src l"
  by (simp add: close_src_def)

lemma deleteQueue_src_bindings:
  "bindings_src (fst (snd (deleteQueue_src slug rep ok l))) = bindings_src l"
proof -
  obtain r l1 os where c: "connect_src slug rep l = (r, l1, os)"
    by (cases "connect_src slug rep l") auto
  with connect_src_bindings [of slug rep l] have l1: "bindings_src l1 = bindings_src l" by simp
  obtain l2 os2 where cl: "close_src l1 = (l2, os2)" by (cases "close_src l1") auto
  with close_src_bindings [of l1] l1 have "bindings_src l2 = bindings_src l" by simp
  with c cl l1 show ?thesis by (cases r) (simp_all add: deleteQueue_src_def Let_def)
qed

lemma bind_src_bindings: "bindings_src (fst (snd (bind_src ok b l))) = bindings_src l @ [b]"
  by (simp add: bind_src_def Let_def split: option.splits)

lemma step_src_bindings:
  "b \<in> set (bindings_src l) \<Longrightarrow> b \<in> set (bindings_src (step_src a l))"
  by (cases a)
     (simp_all add: bind_src_bindings connect_src_bindings resume_src_bindings pause_src_def
        close_src_bindings deleteQueue_src_bindings onChannelError_src_def)

lemma run_src_bindings:
  "b \<in> set (bindings_src l) \<Longrightarrow> b \<in> set (bindings_src (run_src acts l))"
  unfolding run_src_def by (induction acts arbitrary: l) (simp_all add: step_src_bindings)

lemma connect_src_binds_all:
  "channel_src l = None \<Longrightarrow> connection_ok rep \<Longrightarrow> channel_given rep \<noteq> None \<Longrightarrow>
   prefetch_ok rep \<Longrightarrow> assertQueue_ok rep \<Longrightarrow>
   \<exists>pre. snd (snd (connect_src slug rep l)) =
     pre @ bindAll (queueArg (queueName_src (fst (snd (connect_src slug rep l)))))
             (bindings_src l)"
  by (auto simp: connect_src_def Let_def queueArg_def split: option.splits)

text \<open>
  C9, as the code has it. \<^verbatim>\<open>bind(binding)\<close> appends the binding to
  \<^verbatim>\<open>_bindings\<close> whatever the broker answers, and calls \<^verbatim>\<open>bindQueue\<close> only when
  there is a channel. Whatever happens to the listener afterwards, a \<^verbatim>\<open>connect()\<close>
  that finds no channel and gets as far as declaring the queue calls \<^verbatim>\<open>bindQueue\<close>
  for that binding again. This holds of both listeners.
\<close>

theorem bind_records_then_binds:
  "bindings (fst (snd (bind_lib ok b l))) = bindings l @ [b] \<and>
   snd (snd (bind_lib ok b l)) =
     (if channel l = None then []
      else [BindQueue (queueName l) (exchange b) (routingKeyPattern b)]) \<and>
   (channel (run_lib acts (fst (snd (bind_lib ok b l)))) = None \<and> connection_ok rep \<and>
    channel_given rep \<noteq> None \<and> prefetch_ok rep \<and> assertQueue_ok rep \<longrightarrow>
      BindQueue (queueName l) (exchange b) (routingKeyPattern b)
        \<in> set (snd (snd (connect_lib rep (run_lib acts (fst (snd (bind_lib ok b l)))))))) \<and>
   bindings_src (fst (snd (bind_src ok b l'))) = bindings_src l' @ [b] \<and>
   snd (snd (bind_src ok b l')) =
     (if channel_src l' = None then []
      else [BindQueue (queueArg (queueName_src l')) (exchange b) (routingKeyPattern b)]) \<and>
   (channel_src (run_src acts' (fst (snd (bind_src ok b l')))) = None \<and> connection_ok rep \<and>
    channel_given rep \<noteq> None \<and> prefetch_ok rep \<and> assertQueue_ok rep \<longrightarrow>
      BindQueue
        (queueArg (queueName_src
           (fst (snd (connect_src slug rep (run_src acts' (fst (snd (bind_src ok b l')))))))))
        (exchange b) (routingKeyPattern b)
        \<in> set (snd (snd (connect_src slug rep (run_src acts' (fst (snd (bind_src ok b l'))))))))"
proof (intro conjI impI)
  show "bindings (fst (snd (bind_lib ok b l))) = bindings l @ [b]"
    by (simp add: bind_lib_state)
  show "snd (snd (bind_lib ok b l)) =
     (if channel l = None then []
      else [BindQueue (queueName l) (exchange b) (routingKeyPattern b)])"
    by (simp add: bind_lib_def Let_def split: option.splits)
  show "bindings_src (fst (snd (bind_src ok b l'))) = bindings_src l' @ [b]"
    by (rule bind_src_bindings)
  show "snd (snd (bind_src ok b l')) =
     (if channel_src l' = None then []
      else [BindQueue (queueArg (queueName_src l')) (exchange b) (routingKeyPattern b)])"
    by (simp add: bind_src_def Let_def split: option.splits)
next
  let ?l2 = "run_lib acts (fst (snd (bind_lib ok b l)))"
  assume a: "channel ?l2 = None \<and> connection_ok rep \<and> channel_given rep \<noteq> None \<and>
             prefetch_ok rep \<and> assertQueue_ok rep"
  have "b \<in> set (bindings (fst (snd (bind_lib ok b l))))" by (simp add: bind_lib_state)
  then have mem: "b \<in> set (bindings ?l2)" by (rule run_lib_bindings)
  have q: "queueName ?l2 = queueName l" by (simp add: run_lib_queueName bind_lib_state)
  from a obtain pre where
    "snd (snd (connect_lib rep ?l2)) = pre @ bindAll (queueName ?l2) (bindings ?l2)"
    using connect_lib_binds_all [of ?l2 rep] by blast
  with bindAll_member [OF mem, of "queueName ?l2"] q
  show "BindQueue (queueName l) (exchange b) (routingKeyPattern b)
          \<in> set (snd (snd (connect_lib rep ?l2)))" by simp
next
  let ?l2 = "run_src acts' (fst (snd (bind_src ok b l')))"
  assume a: "channel_src ?l2 = None \<and> connection_ok rep \<and> channel_given rep \<noteq> None \<and>
             prefetch_ok rep \<and> assertQueue_ok rep"
  have "b \<in> set (bindings_src (fst (snd (bind_src ok b l'))))" by (simp add: bind_src_bindings)
  then have mem: "b \<in> set (bindings_src ?l2)" by (rule run_src_bindings)
  let ?q = "queueArg (queueName_src (fst (snd (connect_src slug rep ?l2))))"
  from a obtain pre where
    "snd (snd (connect_src slug rep ?l2)) = pre @ bindAll ?q (bindings_src ?l2)"
    using connect_src_binds_all [of ?l2 rep slug] by blast
  with bindAll_member [OF mem, of ?q]
  show "BindQueue ?q (exchange b) (routingKeyPattern b)
          \<in> set (snd (snd (connect_src slug rep ?l2)))" by simp
qed

text \<open>The broker refuses the \<^verbatim>\<open>bindQueue\<close> of \<^verbatim>\<open>bind\<close>, the channel reports an error,
  and the next \<^verbatim>\<open>connect()\<close> binds again.\<close>

theorem bind_records_then_binds_witness:
  "BindQueue ''queue/ns/exclusive/slug'' ''ex'' ''#''
     \<in> set (snd (snd (connect_lib
           \<lparr>connection_ok = True, channel_given = Some 2, prefetch_ok = True,
       assertQueue_ok = True, bindQueue_ok = (\<lambda>i. True)\<rparr>
           (run_lib [ChannelError_lib]
              (fst (snd (bind_lib False
                 \<lparr>exchange = ''ex'', routingKeyPattern = ''#'', routingKeyReference = None\<rparr>
                 ((PulseListener_lib ''ns'' ''slug''
                    \<lparr>prefetch = 5, queueName_opt = None, maxLength = None, reconnect_opt = None,
       shared = False\<rparr>)
                  \<lparr>channel := Some 1\<rparr>))))))))"
proof -
  let ?l = "(PulseListener_lib ''ns'' ''slug''
                    \<lparr>prefetch = 5, queueName_opt = None, maxLength = None, reconnect_opt = None,
       shared = False\<rparr>)
                  \<lparr>channel := Some 1\<rparr>"
  let ?b = "\<lparr>exchange = ''ex'', routingKeyPattern = ''#'', routingKeyReference = None\<rparr>"
  let ?rep = "\<lparr>connection_ok = True, channel_given = Some 2, prefetch_ok = True,
       assertQueue_ok = True, bindQueue_ok = (\<lambda>i. True)\<rparr>"
  have c: "channel (run_lib [ChannelError_lib] (fst (snd (bind_lib False ?b ?l)))) = None"
    by (simp add: run_lib_def onChannelError_lib_def)
  have q: "queueName ?l = ''queue/ns/exclusive/slug''"
    by (simp add: PulseListener_lib_def truthy_def)
  from bind_records_then_binds [of False ?b ?l "[ChannelError_lib]" ?rep]
  have "channel (run_lib [ChannelError_lib] (fst (snd (bind_lib False ?b ?l)))) = None \<and>
        connection_ok ?rep \<and> channel_given ?rep \<noteq> None \<and> prefetch_ok ?rep \<and>
        assertQueue_ok ?rep \<longrightarrow>
        BindQueue (queueName ?l) (exchange ?b) (routingKeyPattern ?b)
          \<in> set (snd (snd (connect_lib ?rep
                (run_lib [ChannelError_lib] (fst (snd (bind_lib False ?b ?l)))))))"
    by (rule conjunct2 [THEN conjunct2, THEN conjunct1])
  with c have "BindQueue (queueName ?l) (exchange ?b) (routingKeyPattern ?b)
          \<in> set (snd (snd (connect_lib ?rep
                (run_lib [ChannelError_lib] (fst (snd (bind_lib False ?b ?l)))))))"
    by simp
  then show ?thesis by (simp only: q Binding.simps)
qed

text \<open>
  Against C9 as stated (applied again at the next \<^verbatim>\<open>connect()\<close>): when the
  \<^verbatim>\<open>bindQueue\<close> of \<^verbatim>\<open>bind\<close> is refused and the listener keeps its channel, the next
  \<^verbatim>\<open>connect()\<close> returns that channel and calls nothing.
\<close>

theorem bind_applied_at_next_connect_counterexample:
  "fst (bind_lib False
          \<lparr>exchange = ''ex'', routingKeyPattern = ''#'', routingKeyReference = None\<rparr>
          ((PulseListener_lib ''ns'' ''slug''
              \<lparr>prefetch = 5, queueName_opt = None, maxLength = None, reconnect_opt = None,
       shared = False\<rparr>)
           \<lparr>channel := Some 1\<rparr>)) = Rejected BrokerError \<and>
   snd (snd (connect_lib
     \<lparr>connection_ok = True, channel_given = Some 2, prefetch_ok = True,
       assertQueue_ok = True, bindQueue_ok = (\<lambda>i. True)\<rparr>
     (fst (snd (bind_lib False
        \<lparr>exchange = ''ex'', routingKeyPattern = ''#'', routingKeyReference = None\<rparr>
        ((PulseListener_lib ''ns'' ''slug''
            \<lparr>prefetch = 5, queueName_opt = None, maxLength = None, reconnect_opt = None,
       shared = False\<rparr>)
         \<lparr>channel := Some 1\<rparr>)))))) = [] \<and>
   snd (snd (connect_src ''slug2''
     \<lparr>connection_ok = True, channel_given = Some 2, prefetch_ok = True,
       assertQueue_ok = True, bindQueue_ok = (\<lambda>i. True)\<rparr>
     (fst (snd (bind_src False
        \<lparr>exchange = ''ex'', routingKeyPattern = ''#'', routingKeyReference = None\<rparr>
        ((PulseListener_src ''ns''
            \<lparr>prefetch = 5, queueName_opt = None, maxLength = None, reconnect_opt = None,
       shared = False\<rparr>)
         \<lparr>queueName_src := Some ''queue/ns/exclusive/slug'', channel_src := Some 1\<rparr>)))))) = []"
  by (simp add: bind_lib_def connect_lib_def bind_src_def connect_src_def)

text \<open>The first piece of a split is what stands before the first separator.\<close>

lemma js_split_not_Nil: "js_split c s \<noteq> []"
  by (induction s) (auto split: list.splits)

lemma hd_js_split: "hd (js_split c s) = takeWhile (\<lambda>x. x \<noteq> c) s"
  by (induction s) (auto simp: js_split_not_Nil split: list.splits)

text \<open>The namespace of a connection of the older file, by the options given.\<close>

lemma truthy_Some: "truthy s \<Longrightarrow> \<exists>x xs. s = Some (x # xs)"
  by (auto simp: truthy_def split: option.splits list.splits)

lemma orElse_truthy: "orElse s d = (if truthy s then the s else d)"
  by (auto simp: orElse_def truthy_def split: option.splits list.splits)

lemma PulseConnection_lib_namespace:
  assumes "PulseConnection_lib URL_auth creds = Inr (cs, ns)"
  shows "(if truthy (namespace creds) then ns = the (namespace creds)
          else if namespace creds = None \<and> truthy (username creds)
          then ns = the (username creds)
          else \<exists>auth. URL_auth cs = Some auth \<and> ns = takeWhile (\<lambda>c. c \<noteq> CHR '':'') auth) \<and>
         (\<not> truthy (username creds) \<longrightarrow> connectionString creds = Some cs)"
proof -
  define namespace0 where
    "namespace0 = (case namespace creds of None \<Rightarrow> orElse (username creds) [] | Some n \<Rightarrow> n)"
  define built where
    "built = (if truthy (connectionString creds) then Inr (the (connectionString creds))
              else if \<not> truthy (username creds) \<or> \<not> truthy (password creds)
              then Inl AssertionError
              else Inr ((case protocol creds of None \<Rightarrow> ''amqps'' | Some p \<Rightarrow> p) @ ''://'' @
                        the (username creds) @ '':'' @ the (password creds) @ ''@'' @
                        (case hostname creds of None \<Rightarrow> ''pulse.mozilla.org'' | Some h \<Rightarrow> h) @
                        '':'' @
                        string_of_nat (case port creds of
                                         None \<Rightarrow> if protocol creds = Some ''amqp'' then 5672 else 5671
                                       | Some n \<Rightarrow> n)))"
  from assms have r: "(case built of
             Inl err \<Rightarrow> Inl err
           | Inr cs \<Rightarrow>
               if namespace0 = [] then
                 (case authUser (URL_auth cs) of
                    Inl err \<Rightarrow> Inl err
                  | Inr usr \<Rightarrow> Inr (cs, usr))
               else Inr (cs, namespace0)) = Inr (cs, ns)"
    unfolding PulseConnection_lib_def Let_def built_def namespace0_def
    by (cases "truthy (connectionString creds) \<and>
         (truthy (hostname creds) \<or> truthy (protocol creds) \<or>
          (case port creds of None \<Rightarrow> False | Some n \<Rightarrow> n \<noteq> 0) \<or>
          truthy (username creds) \<or> truthy (password creds))") simp_all
  then obtain cs' where b: "built = Inr cs'" by (cases built) auto
  from r b have r': "(if namespace0 = [] then
                 (case authUser (URL_auth cs') of
                    Inl err \<Rightarrow> Inl err
                  | Inr usr \<Rightarrow> Inr (cs', usr))
               else Inr (cs', namespace0)) = Inr (cs, ns)"
    by simp
  have cs: "cs' = cs"
  proof (cases "namespace0 = []")
    case True
    with r' show ?thesis by (cases "authUser (URL_auth cs')") simp_all
  next
    case False
    with r' show ?thesis by simp
  qed
  have ns: "if namespace0 = [] then \<exists>auth. URL_auth cs = Some auth \<and>
                 ns = takeWhile (\<lambda>c. c \<noteq> CHR '':'') auth
            else ns = namespace0"
  proof (cases "namespace0 = []")
    case True
    with r' cs show ?thesis
      by (cases "URL_auth cs") (simp_all add: authUser_def hd_js_split)
  next
    case False
    with r' show ?thesis by simp
  qed
  have n0: "namespace0 = (if truthy (namespace creds) then the (namespace creds)
                          else if namespace creds = None \<and> truthy (username creds)
                          then the (username creds) else [])"
    by (auto simp: namespace0_def orElse_truthy truthy_def split: option.splits list.splits)
  have ne: "truthy s \<Longrightarrow> the s \<noteq> []" for s by (auto dest: truthy_Some)
  have first: "if truthy (namespace creds) then ns = the (namespace creds)
          else if namespace creds = None \<and> truthy (username creds)
          then ns = the (username creds)
          else \<exists>auth. URL_auth cs = Some auth \<and> ns = takeWhile (\<lambda>c. c \<noteq> CHR '':'') auth"
    using ns n0 ne by (auto split: if_splits)
  have second: "\<not> truthy (username creds) \<longrightarrow> connectionString creds = Some cs"
  proof
    assume nu: "\<not> truthy (username creds)"
    show "connectionString creds = Some cs"
    proof (cases "truthy (connectionString creds)")
      case True
      with b cs have "the (connectionString creds) = cs" by (simp add: built_def)
      with truthy_Some [OF True] show ?thesis by auto
    next
      case False
      with nu b show ?thesis by (simp add: built_def)
    qed
  qed
  from first second show ?thesis by blast
qed

text \<open>The listener that the constructor returns, and the namespace it was given.\<close>

lemma new_PulseListener_lib_queueName:
  assumes "new_PulseListener_lib URL_auth slug connection_arg credentials_arg options = Inr l"
  shows "\<exists>ns. l = PulseListener_lib ns slug (options\<lparr>shared := connection_arg \<noteq> None\<rparr>) \<and>
           (case connection_arg of
              Some n \<Rightarrow> ns = n
            | None \<Rightarrow> \<exists>creds cs. credentials_arg = Some creds \<and>
                        PulseConnection_lib URL_auth creds = Inr (cs, ns))"
  using assms
  by (auto simp: new_PulseListener_lib_def split: option.splits sum.splits)

text \<open>
  C8, as the older listener has it. The queue name is computed once, by the
  constructor: \<^verbatim>\<open>queue/<namespace>/<name>\<close> for a named queue and
  \<^verbatim>\<open>queue/<namespace>/exclusive/<slug>\<close> otherwise; it stays what it is through every
  method call, reconnect and channel error. The namespace is that of the connection
  given to the listener or of the one it makes from the credentials: the
  \<^verbatim>\<open>namespace\<close> option when that is a non-empty string; with no \<^verbatim>\<open>namespace\<close> option the
  \<^verbatim>\<open>username\<close> option when that is a non-empty string; and in every other case what
  stands before the first colon in the \<^verbatim>\<open>auth\<close> part that \<^verbatim>\<open>URL.parse\<close> finds in the
  connection string (which is the one given when there is no user name).
\<close>

theorem queue_name_over_lifetime:
  "queueName (run_lib acts (PulseListener_lib ns slug options)) =
     ''queue/'' @ ns @ ''/'' @
     (if truthy (queueName_opt options) then the (queueName_opt options)
      else ''exclusive/'' @ slug) \<and>
   (new_PulseListener_lib URL_auth slug connection_arg credentials_arg options = Inr l \<longrightarrow>
      (\<exists>ns'. queueName (run_lib acts l) =
               ''queue/'' @ ns' @ ''/'' @
               (if truthy (queueName_opt options) then the (queueName_opt options)
                else ''exclusive/'' @ slug) \<and>
             (case connection_arg of
                Some n \<Rightarrow> ns' = n
              | None \<Rightarrow>
                  (\<exists>creds cs.
                     credentials_arg = Some creds \<and>
                     PulseConnection_lib URL_auth creds = Inr (cs, ns') \<and>
                     (if truthy (namespace creds) then ns' = the (namespace creds)
                      else if namespace creds = None \<and> truthy (username creds)
                      then ns' = the (username creds)
                      else \<exists>auth. URL_auth cs = Some auth \<and>
                                  ns' = takeWhile (\<lambda>c. c \<noteq> CHR '':'') auth) \<and>
                     (\<not> truthy (username creds) \<longrightarrow> connectionString creds = Some cs)))))"
proof (intro conjI impI)
  show "queueName (run_lib acts (PulseListener_lib ns slug options)) =
     ''queue/'' @ ns @ ''/'' @
     (if truthy (queueName_opt options) then the (queueName_opt options)
      else ''exclusive/'' @ slug)"
    by (simp add: run_lib_queueName PulseListener_lib_def)
next
  assume "new_PulseListener_lib URL_auth slug connection_arg credentials_arg options = Inr l"
  from new_PulseListener_lib_queueName [OF this]
  obtain ns' where l: "l = PulseListener_lib ns' slug (options\<lparr>shared := connection_arg \<noteq> None\<rparr>)"
    and c: "case connection_arg of
              Some n \<Rightarrow> ns' = n
            | None \<Rightarrow> \<exists>creds cs. credentials_arg = Some creds \<and>
                        PulseConnection_lib URL_auth creds = Inr (cs, ns')"
    by blast
  have q: "queueName (run_lib acts l) =
               ''queue/'' @ ns' @ ''/'' @
               (if truthy (queueName_opt options) then the (queueName_opt options)
                else ''exclusive/'' @ slug)"
    by (simp add: l run_lib_queueName PulseListener_lib_def)
  have "case connection_arg of
                Some n \<Rightarrow> ns' = n
              | None \<Rightarrow>
                  (\<exists>creds cs.
                     credentials_arg = Some creds \<and>
                     PulseConnection_lib URL_auth creds = Inr (cs, ns') \<and>
                     (if truthy (namespace creds) then ns' = the (namespace creds)
                      else if namespace creds = None \<and> truthy (username creds)
                      then ns' = the (username creds)
                      else \<exists>auth. URL_auth cs = Some auth \<and>
                                  ns' = takeWhile (\<lambda>c. c \<noteq> CHR '':'') auth) \<and>
                     (\<not> truthy (username creds) \<longrightarrow> connectionString creds = Some cs))"
  proof (cases connection_arg)
    case None
    with c obtain creds cs where cr: "credentials_arg = Some creds"
      "PulseConnection_lib URL_auth creds = Inr (cs, ns')" by auto
    from PulseConnection_lib_namespace [OF cr(2)] cr None show ?thesis
      by (simp only: option.case) blast
  next
    case (Some n)
    with c show ?thesis by simp
  qed
  with q show "\<exists>ns'. queueName (run_lib acts l) =
               ''queue/'' @ ns' @ ''/'' @
               (if truthy (queueName_opt options) then the (queueName_opt options)
                else ''exclusive/'' @ slug) \<and>
             (case connection_arg of
                Some n \<Rightarrow> ns' = n
              | None \<Rightarrow>
                  (\<exists>creds cs.
                     credentials_arg = Some creds \<and>
                     PulseConnection_lib URL_auth creds = Inr (cs, ns') \<and>
                     (if truthy (namespace creds) then ns' = the (namespace creds)
                      else if namespace creds = None \<and> truthy (username creds)
                      then ns' = the (username creds)
                      else \<exists>auth. URL_auth cs = Some auth \<and>
                                  ns' = takeWhile (\<lambda>c. c \<noteq> CHR '':'') auth) \<and>
                     (\<not> truthy (username creds) \<longrightarrow> connectionString creds = Some cs)))"
    by blast
qed

text \<open>
  A listener made from a connection string, with a named queue: its namespace is the
  user of the connection string, and the name is the same after a connect and a
  reconnect.
\<close>

theorem queue_name_over_lifetime_witness:
  "\<exists>l. new_PulseListener_lib
         (\<lambda>s. if s = ''amqps://guest:pw@pulse.example:5671'' then Some ''guest:pw'' else None)
         ''slug'' None
         (Some \<lparr>namespace = None, username = None, password = None, hostname = None,
                protocol = None, port = None,
                connectionString = Some ''amqps://guest:pw@pulse.example:5671''\<rparr>)
         \<lparr>prefetch = 5, queueName_opt = Some ''q'', maxLength = None, reconnect_opt = None,
          shared = False\<rparr> = Inr l \<and>
       queueName (run_lib
         [Connect_lib \<lparr>connection_ok = True, channel_given = Some 2, prefetch_ok = True,
           assertQueue_ok = True, bindQueue_ok = (\<lambda>i. True)\<rparr>,
          Reconnect_lib \<lparr>connection_ok = True, channel_given = Some 2, prefetch_ok = True,
           assertQueue_ok = True, bindQueue_ok = (\<lambda>i. True)\<rparr> None] l) = ''queue/guest/q''"
proof -
  let ?url = "\<lambda>s. if s = ''amqps://guest:pw@pulse.example:5671'' then Some ''guest:pw'' else None"
  let ?creds = "\<lparr>namespace = None, username = None, password = None, hostname = None,
                protocol = None, port = None,
                connectionString = Some ''amqps://guest:pw@pulse.example:5671''\<rparr>"
  let ?acts = "[Connect_lib \<lparr>connection_ok = True, channel_given = Some 2, prefetch_ok = True,
       assertQueue_ok = True, bindQueue_ok = (\<lambda>i. True)\<rparr>,
      Reconnect_lib \<lparr>connection_ok = True, channel_given = Some 2, prefetch_ok = True,
       assertQueue_ok = True, bindQueue_ok = (\<lambda>i. True)\<rparr> None]"
  let ?opts = "\<lparr>prefetch = 5, queueName_opt = Some ''q'', maxLength = None, reconnect_opt = None,
       shared = False\<rparr>"
  have "\<exists>l. new_PulseListener_lib ?url ''slug'' None (Some ?creds) ?opts = Inr l"
    by (simp add: new_PulseListener_lib_def PulseConnection_lib_def truthy_def orElse_def
          authUser_def)
  then obtain l where l: "new_PulseListener_lib ?url ''slug'' None (Some ?creds) ?opts = Inr l"
    by blast
  from queue_name_over_lifetime
         [of ?acts "''u''" "''slug''" ?opts ?url None "Some ?creds" l, THEN conjunct2] l
  obtain ns' where q: "queueName (run_lib ?acts l) =
               ''queue/'' @ ns' @ ''/'' @
               (if truthy (queueName_opt ?opts) then the (queueName_opt ?opts)
                else ''exclusive/'' @ ''slug'')"
    and c: "\<exists>creds cs.
                     Some ?creds = Some creds \<and>
                     PulseConnection_lib ?url creds = Inr (cs, ns') \<and>
                     (if truthy (namespace creds) then ns' = the (namespace creds)
                      else if namespace creds = None \<and> truthy (username creds)
                      then ns' = the (username creds)
                      else \<exists>auth. ?url cs = Some auth \<and>
                                  ns' = takeWhile (\<lambda>c. c \<noteq> CHR '':'') auth) \<and>
                     (\<not> truthy (username creds) \<longrightarrow> connectionString creds = Some cs)"
    by (simp only: option.case) blast
  from c obtain cs where
    a: "\<exists>auth. ?url cs = Some auth \<and> ns' = takeWhile (\<lambda>c. c \<noteq> CHR '':'') auth"
    and s: "cs = ''amqps://guest:pw@pulse.example:5671''"
    by (auto simp: truthy_def)
  from a s have "ns' = ''guest''" by simp
  with q have "queueName (run_lib ?acts l) = ''queue/guest/q''" by (simp add: truthy_def)
  with l show ?thesis by blast
qed

text \<open>
  Against C8 as stated: the anonymous queue of the older listener has
  \<^verbatim>\<open>exclusive/\<close> before the slug; and in the rewrite, which draws a slug in every
  \<^verbatim>\<open>connect()\<close> that gets a channel, a named queue has the slug in its name and another
  name after the second such \<^verbatim>\<open>connect()\<close>.
\<close>

theorem queue_name_generated_once_counterexample:
  "queueName (PulseListener_lib ''u'' ''slug''
     \<lparr>prefetch = 5, queueName_opt = None, maxLength = None, reconnect_opt = None,
       shared = False\<rparr>) = ''queue/u/exclusive/slug'' \<and>
   queueName_src (run_src
     [Connect_src ''slug1'' \<lparr>connection_ok = True, channel_given = Some 2, prefetch_ok = True,
       assertQueue_ok = True, bindQueue_ok = (\<lambda>i. True)\<rparr>]
     (PulseListener_src ''u''
      \<lparr>prefetch = 5, queueName_opt = Some ''q'', maxLength = None, reconnect_opt = None,
       shared = False\<rparr>)) = Some ''queue/u/q/slug1'' \<and>
   queueName_src (run_src
     [Connect_src ''slug1'' \<lparr>connection_ok = True, channel_given = Some 2, prefetch_ok = True,
       assertQueue_ok = True, bindQueue_ok = (\<lambda>i. True)\<rparr>,
      Close_src,
      Connect_src ''slug2'' \<lparr>connection_ok = True, channel_given = Some 2, prefetch_ok = True,
       assertQueue_ok = True, bindQueue_ok = (\<lambda>i. True)\<rparr>]
     (PulseListener_src ''u''
      \<lparr>prefetch = 5, queueName_opt = Some ''q'', maxLength = None, reconnect_opt = None,
       shared = False\<rparr>)) = Some ''queue/u/q/slug2''"
  by code_simp


end
